theory Spec2Isabelle
  imports Main "HOL-Library.Char_ord" "HOL-Library.List_Lexorder" "HOL-Library.Multiset"
begin

section \<open>Go library functions used by the operator\<close>

text \<open>
  Go strings are byte sequences; they are modelled as \<open>string\<close> (a list of
  \<open>char\<close>, one per byte). \<open>sort.Strings\<close> orders strings bytewise and
  lexicographically, which is the order \<open>List_Lexorder\<close> puts on \<open>char list\<close>
  over \<open>Char_ord\<close>; \<open>sort\<close> of HOL is therefore \<open>sort.Strings\<close>.
\<close>

text \<open>
  \<open>strings.Split(s, sep)\<close> for a separator of one byte, the only kind the operator
  passes (\<open>";"\<close>, \<open>":"\<close>, \<open>"."\<close>, \<open>"-"\<close>, \<open>"\n"\<close>). The result is never
  empty: \<open>Split("", sep)\<close> is the one-element list holding the empty string.
  As in Go, the string is cut at the first separator and the rest is split in turn.
\<close>

function Split :: "string \<Rightarrow> char \<Rightarrow> string list" where
  "Split s sep =
     (case dropWhile (\<lambda>x. x \<noteq> sep) s of
        [] \<Rightarrow> [s]
      | x # rest \<Rightarrow> takeWhile (\<lambda>x. x \<noteq> sep) s # Split rest sep)"
  by pat_completeness auto
termination
proof (relation "measure (\<lambda>(s, sep). length s)")
  show "wf (measure (\<lambda>(s, sep). length s))" by simp
next
  fix s :: string and sep x :: char and rest :: string
  assume "dropWhile (\<lambda>x. x \<noteq> sep) s = x # rest"
  then have "length (x # rest) \<le> length s"
    by (metis length_dropWhile_le)
  then show "((rest, sep), (s, sep)) \<in> measure (\<lambda>(s, sep). length s)" by simp
qed

declare Split.simps [simp del]

text \<open>\<open>strings.Join(xs, sep)\<close>.\<close>

fun Join :: "string list \<Rightarrow> string \<Rightarrow> string" where
  "Join [] sep = []"
| "Join [x] sep = x"
| "Join (x # y # ys) sep = x @ sep @ Join (y # ys) sep"

text \<open>
  \<open>strings.LastIndex(s, sep)\<close> for a separator of one byte: the index of its last
  occurrence, or \<open>-1\<close> when there is none.
\<close>

definition LastIndex :: "string \<Rightarrow> char \<Rightarrow> int" where
  "LastIndex s sep =
     (if sep \<in> set s
      then int (length s) - 1 - int (length (takeWhile (\<lambda>x. x \<noteq> sep) (rev s)))
      else - 1)"

text \<open>
  \<open>strconv.Atoi\<close> on a platform whose \<open>int\<close> has 64 bits. The pair is Go's
  \<open>(int, error)\<close>, the second component telling whether the error is \<open>nil\<close>.
  A string that is not an optional sign followed by one or more decimal digits is a
  syntax error with value 0; a number out of range is a range error whose value is
  the nearest bound.
\<close>

definition isDigit :: "char \<Rightarrow> bool" where
  "isDigit c = (48 \<le> (of_char c :: nat) \<and> (of_char c :: nat) \<le> 57)"

definition digitsValue :: "string \<Rightarrow> nat" where
  "digitsValue s = foldl (\<lambda>n ch. n * 10 + ((of_char ch :: nat) - 48)) 0 s"

definition maxInt :: int where
  "maxInt = 9223372036854775807"

definition minInt :: int where
  "minInt = - 9223372036854775808"

definition Atoi :: "string \<Rightarrow> int \<times> bool" where
  "Atoi s =
     (let neg = (s \<noteq> [] \<and> hd s = CHR ''-'');
          body = (if s \<noteq> [] \<and> (hd s = CHR ''-'' \<or> hd s = CHR ''+'') then tl s else s)
      in if body = [] \<or> \<not> list_all isDigit body then (0, False)
         else (let v = (if neg then - int (digitsValue body) else int (digitsValue body))
               in if v > maxInt then (maxInt, False)
                  else if v < minInt then (minInt, False)
                  else (v, True)))"

text \<open>The verb \<open>%d\<close> of \<open>fmt.Sprintf\<close> and \<open>strconv.Itoa\<close>: decimal, with a minus sign.\<close>

fun natString :: "nat \<Rightarrow> string" where
  "natString n =
     (if n < 10 then [''0123456789'' ! n]
      else natString (n div 10) @ [''0123456789'' ! (n mod 10)])"

definition Itoa :: "int \<Rightarrow> string" where
  "Itoa i = (if i < 0 then CHR ''-'' # natString (nat (- i)) else natString (nat i))"

text \<open>Addition of Go's 64-bit \<open>int\<close>, which wraps around.\<close>

definition wrapInt :: "int \<Rightarrow> int" where
  "wrapInt i = (i + 9223372036854775808) mod 18446744073709551616 - 9223372036854775808"

section \<open>Errors\<close>

text \<open>
  Every way a function of the operator stops without its result is a value of
  \<open>error\<close>: the error \<open>ErrLostQuorum\<close>, the two panics of the member set
  (\<open>panic("empty")\<close> of \<open>PickOne\<close>, \<open>panic("unexpected member name: ...")\<close> of
  \<open>clusterNameFromMemberName\<close>), an index out of range, a \<open>nil\<close> pointer
  dereferenced, an error returned by the ZooKeeper client or by the Kubernetes
  client, and the two wrappers built with \<open>fmt.Errorf\<close> in \<open>addMember\<close> and
  \<open>removeMember\<close>.
\<close>

datatype error =
    ErrLostQuorum
  | PanicEmpty
  | PanicUnexpectedMemberName string
  | PanicIndexOutOfRange
  | PanicNilPointer
  | ZkError string
  | KubeError string
  | CreatePodFailed string error
  | RemoveMemberFailed string error

section \<open>Members and member sets (package zookeeperutil)\<close>

record Member =
  Name :: string
  Namespace :: string

definition clusterNameFromMemberName :: "string \<Rightarrow> error + string" where
  "clusterNameFromMemberName mn =
     (let i = LastIndex mn CHR ''-''
      in if i = - 1 then Inl (PanicUnexpectedMemberName mn)
         else Inr (take (nat i) mn))"

definition Addr :: "Member \<Rightarrow> error + string" where
  "Addr m =
     (case clusterNameFromMemberName (Name m) of
        Inl e \<Rightarrow> Inl e
      | Inr cn \<Rightarrow> Inr (Name m @ ''.'' @ cn @ ''.'' @ Namespace m @ ''.svc''))"

definition ID :: "Member \<Rightarrow> int" where
  "ID m = fst (Atoi (last (Split (Name m) CHR ''-'')))"

text \<open>
  \<open>MemberSet\<close> is \<open>map[string]*Member\<close>. Go leaves the order in which a map is
  iterated unspecified, so the map is an association list whose order stands for the
  order an iteration happens to take; a Go map holds a key once, which is the
  invariant \<open>distinct (map fst ms)\<close>. Results that must not depend on the iteration
  order are proved for all lists with the same entries.
\<close>

type_synonym MemberSet = "(string \<times> Member) list"

definition hasKey :: "MemberSet \<Rightarrow> string \<Rightarrow> bool" where
  "hasKey ms n = (n \<in> set (map fst ms))"

text \<open>The assignment \<open>ms[k] = m\<close> of a Go map: a key already there keeps its place.\<close>

definition store :: "MemberSet \<Rightarrow> string \<Rightarrow> Member \<Rightarrow> MemberSet" where
  "store ms k m =
     (if hasKey ms k then map (\<lambda>(n, v). if n = k then (n, m) else (n, v)) ms
      else ms @ [(k, m)])"

definition NewMemberSet :: "Member list \<Rightarrow> MemberSet" where
  "NewMemberSet ms = foldl (\<lambda>res m. store res (Name m) m) [] ms"

definition Size :: "MemberSet \<Rightarrow> int" where
  "Size ms = int (length ms)"

definition Diff :: "MemberSet \<Rightarrow> MemberSet \<Rightarrow> MemberSet" where
  "Diff ms other = filter (\<lambda>(n, m). \<not> hasKey other n) ms"

definition IsEqual :: "MemberSet \<Rightarrow> MemberSet \<Rightarrow> bool" where
  "IsEqual ms other =
     (if Size ms \<noteq> Size other then False
      else list_all (\<lambda>(n, m). hasKey other n) ms)"

definition PickOne :: "MemberSet \<Rightarrow> error + Member" where
  "PickOne ms = (case ms of [] \<Rightarrow> Inl PanicEmpty | (n, m) # rest \<Rightarrow> Inr m)"

definition Add :: "MemberSet \<Rightarrow> Member \<Rightarrow> MemberSet" where
  "Add ms m = store ms (Name m) m"

definition Remove :: "MemberSet \<Rightarrow> string \<Rightarrow> MemberSet" where
  "Remove ms name = filter (\<lambda>(k, v). k \<noteq> name) ms"

definition MaxMemberID :: "MemberSet \<Rightarrow> int" where
  "MaxMemberID ms =
     foldl (\<lambda>maxID (n, m). if ID m > maxID then ID m else maxID) 0 ms"

text \<open>
  A loop over the members that formats one string per member and appends it; it
  stops at the first member whose \<open>Addr\<close> panics.
\<close>

fun forEach :: "(Member \<Rightarrow> error + string) \<Rightarrow> MemberSet \<Rightarrow> error + string list" where
  "forEach f [] = Inr []"
| "forEach f ((n, m) # rest) =
     (case f m of
        Inl e \<Rightarrow> Inl e
      | Inr s \<Rightarrow> (case forEach f rest of Inl e \<Rightarrow> Inl e | Inr ss \<Rightarrow> Inr (s # ss)))"

definition clientHost :: "Member \<Rightarrow> error + string" where
  "clientHost m = (case Addr m of Inl e \<Rightarrow> Inl e | Inr a \<Rightarrow> Inr (a @ '':2181''))"

definition ClientHostList :: "MemberSet \<Rightarrow> error + string list" where
  "ClientHostList ms = forEach clientHost ms"

text \<open>
  The server line \<open>server.<id>=<addr>:2888:3888:<role>;<addr>:2181\<close>, which
  \<open>ClusterConfig\<close> and \<open>NewZookeeperPod\<close> both build with \<open>fmt.Sprintf\<close>.
\<close>

definition serverLine :: "string \<Rightarrow> Member \<Rightarrow> error + string" where
  "serverLine role m =
     (case Addr m of
        Inl e \<Rightarrow> Inl e
      | Inr a \<Rightarrow> Inr (''server.'' @ Itoa (ID m) @ ''='' @ a @ '':2888:3888:'' @ role
                       @ '';'' @ a @ '':2181''))"

definition ClusterConfig :: "MemberSet \<Rightarrow> error + string list" where
  "ClusterConfig ms =
     (case forEach (serverLine ''participant'') ms of
        Inl e \<Rightarrow> Inl e
      | Inr clusterConfig \<Rightarrow> Inr (sort clusterConfig))"

section \<open>The ZooKeeper client (package zookeeperutil)\<close>

text \<open>
  What lies outside the operator is a parameter of the model: the ZooKeeper library
  (\<open>zk.Connect\<close>, \<open>conn.Get\<close>, \<open>conn.Reconfig\<close>) and the methods of
  \<open>Cluster\<close> that talk to Kubernetes or live in files not at hand
  (\<open>removePod\<close>, \<open>createPod\<close>, \<open>upgradeOneMember\<close>). Each field gives the
  outcome of one such call from its arguments; within one pass no call is repeated
  with the same arguments. Closing the connection and writing to the log change
  nothing that is modelled and are left out.
\<close>

record env =
  zkConnect :: "string list \<Rightarrow> error option"
  zkGet :: "string list \<Rightarrow> error + string"
  zkReconfig :: "string list \<Rightarrow> string \<Rightarrow> error + string"
  removePod :: "string \<Rightarrow> bool \<Rightarrow> error option"
  createPod :: "string list \<Rightarrow> Member \<Rightarrow> string \<Rightarrow> error option"
  upgradeOneMember :: "string \<Rightarrow> MemberSet \<Rightarrow> error option \<times> MemberSet"

text \<open>
  The payload of the configuration node has the servers first and the version on its
  last line: the last line is dropped and the rest sorted.
\<close>

definition configLines :: "string \<Rightarrow> string list" where
  "configLines dataStr = sort (butlast (Split dataStr (CHR 0x0A)))"

definition GetClusterConfig :: "env \<Rightarrow> string list \<Rightarrow> error + string list" where
  "GetClusterConfig ev hosts =
     (case zkConnect ev hosts of
        Some err \<Rightarrow> Inl err
      | None \<Rightarrow>
          (case zkGet ev hosts of
             Inl err \<Rightarrow> Inl err
           | Inr dataStr \<Rightarrow> Inr (configLines dataStr)))"

definition ReconfigureCluster :: "env \<Rightarrow> string list \<Rightarrow> string list \<Rightarrow> error + string list" where
  "ReconfigureCluster ev hosts desiredConfig =
     (case zkConnect ev hosts of
        Some err \<Rightarrow> Inl err
      | None \<Rightarrow>
          (case zkReconfig ev hosts (Join desiredConfig '','') of
             Inl err \<Rightarrow> Inl err
           | Inr dataStr \<Rightarrow> Inr (configLines dataStr)))"

section \<open>Pods (package k8sutil)\<close>

text \<open>
  Of \<open>v1.Pod\<close> the operator reads the name, the namespace and the annotations;
  the first two are \<open>PodName\<close> and \<open>PodNamespace\<close> here, \<open>Name\<close> and
  \<open>Namespace\<close> being the fields of \<open>Member\<close>.
\<close>

record Pod =
  PodName :: string
  PodNamespace :: string
  Annotations :: "string \<rightharpoonup> string"

text \<open>Reading a key that a Go map does not hold gives the empty string.\<close>

definition GetZookeeperVersion :: "Pod \<Rightarrow> string" where
  "GetZookeeperVersion pod =
     (case Annotations pod ''zookeeper.version'' of None \<Rightarrow> [] | Some v \<Rightarrow> v)"

text \<open>
  The list \<open>zooServers\<close> that \<open>NewZookeeperPod\<close> joins into the variable
  \<open>ZOO_SERVERS\<close> of the container: the existing cluster followed by the line of the
  pod's own member.
\<close>

definition zooServers :: "Member \<Rightarrow> string list \<Rightarrow> string \<Rightarrow> error + string list" where
  "zooServers m existingCluster state =
     (case (if state = ''seed'' \<or> state = ''replacement''
            then serverLine ''participant'' m
            else serverLine ''observer'' m) of
        Inl e \<Rightarrow> Inl e
      | Inr own \<Rightarrow> Inr (existingCluster @ [own]))"

section \<open>The cluster and its reconciliation (package cluster)\<close>

text \<open>
  The fields of \<open>ClusterSpec\<close> that the reconciliation reads; its \<open>Size\<close> is
  \<open>SpecSize\<close> here, \<open>Size\<close> being the method of \<open>MemberSet\<close>.
\<close>

record ClusterSpec =
  SpecSize :: int
  Version :: string
  Paused :: bool

datatype condition = ClusterConditionScaling | ClusterConditionUpgrading

text \<open>
  The calls a pass makes to its collaborators, in the order it makes them: the
  ZooKeeper client, the pods, the event recorder and the methods of the cluster
  status (whose file is not at hand, so that a call is recorded and not interpreted).
\<close>

datatype call =
    CallGetClusterConfig "string list"
  | CallReconfigureCluster "string list" "string list"
  | CallRemovePod string bool
  | CallCreatePod "string list" Member string
  | CallUpgradeOneMember string
  | MemberAddEvent string
  | MemberRemoveEvent string
  | ReplacingDeadMemberEvent string
  | ClearCondition condition
  | SetScalingUpCondition int int
  | SetScalingDownCondition int int
  | UpgradeVersionTo string
  | SetVersion string
  | SetReadyCondition

record Cluster =
  members :: MemberSet
  clusterName :: string
  clusterNamespace :: string
  spec :: ClusterSpec
  statusSize :: int
  calls :: "call list"

definition record_call :: "call \<Rightarrow> Cluster \<Rightarrow> Cluster" where
  "record_call cl c = c\<lparr>calls := calls c @ [cl]\<rparr>"

text \<open>A panic is not an error value: no \<open>fmt.Errorf\<close> wraps it on its way up.\<close>

fun isPanic :: "error \<Rightarrow> bool" where
  "isPanic PanicEmpty = True"
| "isPanic (PanicUnexpectedMemberName mn) = True"
| "isPanic PanicIndexOutOfRange = True"
| "isPanic PanicNilPointer = True"
| "isPanic e = False"



definition newMember :: "Cluster \<Rightarrow> Member" where
  "newMember c =
     \<lparr>Name = clusterName c @ ''-'' @ Itoa (wrapInt (MaxMemberID (members c) + 1)),
      Namespace = clusterNamespace c\<rparr>"

definition podsToMemberSet :: "Pod list \<Rightarrow> MemberSet" where
  "podsToMemberSet pods =
     foldl (\<lambda>ms pod. Add ms \<lparr>Name = PodName pod, Namespace = PodNamespace pod\<rparr>) [] pods"

fun pickOneOldMember :: "Pod list \<Rightarrow> string \<Rightarrow> Member option" where
  "pickOneOldMember [] newVersion = None"
| "pickOneOldMember (pod # pods) newVersion =
     (if GetZookeeperVersion pod = newVersion then pickOneOldMember pods newVersion
      else Some \<lparr>Name = PodName pod, Namespace = PodNamespace pod\<rparr>)"

definition needUpgrade :: "Pod list \<Rightarrow> ClusterSpec \<Rightarrow> bool" where
  "needUpgrade pods cs =
     (int (length pods) = SpecSize cs \<and> pickOneOldMember pods (Version cs) \<noteq> None)"

text \<open>
  The methods of \<open>Cluster\<close> take the cluster and return Go's \<open>error\<close>
  (\<open>None\<close> for \<open>nil\<close>) with the cluster as they leave it. Calls to the logger
  change nothing and are left out.
\<close>

definition addMember :: "env \<Rightarrow> Member \<Rightarrow> string \<Rightarrow> Cluster \<Rightarrow> error option \<times> Cluster" where
  "addMember ev toAdd state c =
     (case ClusterConfig (members c) of
        Inl e \<Rightarrow> (Some e, c)
      | Inr existingCluster \<Rightarrow>
          (let c1 = c\<lparr>members := Add (members c) toAdd\<rparr>;
               c2 = record_call (CallCreatePod existingCluster toAdd state) c1
           in case createPod ev existingCluster toAdd state of
                Some err \<Rightarrow>
                  (Some (if isPanic err then err else CreatePodFailed (Name toAdd) err), c2)
              | None \<Rightarrow> (None, record_call (MemberAddEvent (Name toAdd)) c2)))"

definition addOneMember :: "env \<Rightarrow> Cluster \<Rightarrow> error option \<times> Cluster" where
  "addOneMember ev c =
     (let c1 = record_call (SetScalingUpCondition (Size (members c)) (SpecSize (spec c))) c
      in addMember ev (newMember c1) ''new'' c1)"

definition removeMember :: "env \<Rightarrow> Member \<Rightarrow> bool \<Rightarrow> Cluster \<Rightarrow> error option \<times> Cluster" where
  "removeMember ev toRemove isScalingEvent c =
     (let c1 = c\<lparr>members := Remove (members c) (Name toRemove)\<rparr>;
          reconfigured =
            (if isScalingEvent
             then (case ClientHostList (members c1) of
                     Inl e \<Rightarrow> Inl e
                   | Inr hosts \<Rightarrow>
                       (case ClusterConfig (members c1) of
                          Inl e \<Rightarrow> Inl e
                        | Inr config \<Rightarrow> Inr (record_call (CallReconfigureCluster hosts config) c1)))
             else Inr c1)
      in case reconfigured of
           Inl e \<Rightarrow> (Some e, c1)
         | Inr c2 \<Rightarrow>
             (let c3 = record_call (MemberRemoveEvent (Name toRemove)) c2;
                  c4 = record_call (CallRemovePod (Name toRemove) isScalingEvent) c3
              in case removePod ev (Name toRemove) isScalingEvent of
                   Some err \<Rightarrow>
                     (Some (if isPanic err then err else RemoveMemberFailed (Name toRemove) err), c4)
                 | None \<Rightarrow> (None, c4)))"

definition removeOneMember :: "env \<Rightarrow> Cluster \<Rightarrow> error option \<times> Cluster" where
  "removeOneMember ev c =
     (let c1 = record_call (SetScalingDownCondition (Size (members c)) (SpecSize (spec c))) c
      in case PickOne (members c1) of
           Inl e \<Rightarrow> (Some e, c1)
         | Inr m \<Rightarrow> removeMember ev m True c1)"

definition replaceDeadMember :: "env \<Rightarrow> Member \<Rightarrow> Cluster \<Rightarrow> error option \<times> Cluster" where
  "replaceDeadMember ev toReplace c =
     (let c1 = record_call (ReplacingDeadMemberEvent (Name toReplace)) c
      in case removeMember ev toReplace False c1 of
           (Some err, c2) \<Rightarrow> (Some err, c2)
         | (None, c2) \<Rightarrow> addMember ev toReplace ''replacement'' c2)"

definition resize :: "env \<Rightarrow> Cluster \<Rightarrow> error option \<times> Cluster" where
  "resize ev c =
     (if Size (members c) = SpecSize (spec c) then (None, c)
      else if Size (members c) < SpecSize (spec c) then addOneMember ev c
      else removeOneMember ev c)"

text \<open>The loop of \<open>reconcileMembers\<close> over the unknown members.\<close>

fun removeUnexpected :: "env \<Rightarrow> MemberSet \<Rightarrow> Cluster \<Rightarrow> error option \<times> Cluster" where
  "removeUnexpected ev [] c = (None, c)"
| "removeUnexpected ev ((n, m) # rest) c =
     (let c1 = record_call (CallRemovePod (Name m) True) c
      in case removePod ev (Name m) True of
           Some err \<Rightarrow> (Some err, c1)
         | None \<Rightarrow> removeUnexpected ev rest c1)"

definition reconcileMembers :: "env \<Rightarrow> MemberSet \<Rightarrow> Cluster \<Rightarrow> error option \<times> Cluster" where
  "reconcileMembers ev running c =
     (let unknownMembers = Diff running (members c)
      in case removeUnexpected ev unknownMembers c of
           (Some err, c1) \<Rightarrow> (Some err, c1)
         | (None, c1) \<Rightarrow>
             (let L = Diff running unknownMembers
              in if Size L = Size (members c1) then resize ev c1
                 else if Size L < Size (members c1) div 2 + 1 then (Some ErrLostQuorum, c1)
                 else (case PickOne (Diff (members c1) L) of
                         Inl e \<Rightarrow> (Some e, c1)
                       | Inr m \<Rightarrow> replaceDeadMember ev m c1)))"

text \<open>
  What \<open>reconcile\<close> does from its second \<open>if\<close> on: the members, or else the
  upgrade, or else the ready condition. \<open>upgradeOneMember\<close> is a parameter; a
  \<open>nil\<close> from \<open>pickOneOldMember\<close> would be dereferenced there.
\<close>

definition reconcileScaleUpgrade ::
    "env \<Rightarrow> Pod list \<Rightarrow> MemberSet \<Rightarrow> Cluster \<Rightarrow> error option \<times> Cluster" where
  "reconcileScaleUpgrade ev pods running c =
     (let sp = spec c
      in if \<not> IsEqual running (members c) \<or> Size (members c) \<noteq> SpecSize sp
         then reconcileMembers ev running c
         else
           (let c1 = record_call (ClearCondition ClusterConditionScaling) c
            in if needUpgrade pods sp
               then
                 (let c2 = record_call (UpgradeVersionTo (Version sp)) c1
                  in case pickOneOldMember pods (Version sp) of
                       None \<Rightarrow> (Some PanicNilPointer, c2)
                     | Some m \<Rightarrow>
                         (let c3 = record_call (CallUpgradeOneMember (Name m)) c2;
                              (r, ms) = upgradeOneMember ev (Name m) (members c3)
                          in (r, c3\<lparr>members := ms\<rparr>)))
               else
                 (None,
                  record_call SetReadyCondition
                    (record_call (SetVersion (Version sp))
                      (record_call (ClearCondition ClusterConditionUpgrading) c1)))))"

text \<open>
  The first \<open>if\<close> of \<open>reconcile\<close>: when the running pods are the members, the
  configuration of the ensemble is read and, if it is not the members', pushed.
  \<open>reflect.DeepEqual\<close> compares two slices of strings, neither of them \<open>nil\<close>.
\<close>

definition reconcileBody :: "env \<Rightarrow> Pod list \<Rightarrow> Cluster \<Rightarrow> error option \<times> Cluster" where
  "reconcileBody ev pods c =
     (let running = podsToMemberSet pods
      in if IsEqual running (members c)
         then
           (case ClientHostList (members c) of
              Inl e \<Rightarrow> (Some e, c)
            | Inr clientHosts \<Rightarrow>
                (let c1 = record_call (CallGetClusterConfig clientHosts) c
                 in case GetClusterConfig ev clientHosts of
                      Inl err \<Rightarrow> (Some err, c1)
                    | Inr zkClusterConfig \<Rightarrow>
                        (case ClusterConfig (members c1) of
                           Inl e \<Rightarrow> (Some e, c1)
                         | Inr memberClusterConfig \<Rightarrow>
                             if int (length zkClusterConfig) \<noteq> Size (members c1)
                                \<or> zkClusterConfig \<noteq> memberClusterConfig
                             then
                               (let c2 = record_call
                                      (CallReconfigureCluster clientHosts memberClusterConfig) c1
                                in case ReconfigureCluster ev clientHosts memberClusterConfig of
                                     Inl err \<Rightarrow> (Some err, c2)
                                   | Inr config \<Rightarrow> (None, c2))
                             else reconcileScaleUpgrade ev pods running c1)))
         else reconcileScaleUpgrade ev pods running c)"

text \<open>The deferred function of \<open>reconcile\<close> refreshes the size of the status on every exit.\<close>

definition reconcile :: "env \<Rightarrow> Pod list \<Rightarrow> Cluster \<Rightarrow> error option \<times> Cluster" where
  "reconcile ev pods c =
     (case reconcileBody ev pods c of
        (r, c') \<Rightarrow> (r, c'\<lparr>statusSize := Size (members c')\<rparr>))"

section \<open>Notions used to state the properties\<close>

text \<open>
  Every member set the operator builds stores a member under its own name
  (\<open>NewMemberSet\<close>, \<open>Add\<close>, \<open>podsToMemberSet\<close>, \<open>updateMembers\<close>), and
  \<open>Diff\<close> and \<open>Remove\<close> only drop entries.
\<close>

definition wfMemberSet :: "MemberSet \<Rightarrow> bool" where
  "wfMemberSet ms = (distinct (map fst ms) \<and> list_all (\<lambda>(n, m). n = Name m) ms)"

text \<open>
  The deletions that the first loop of \<open>reconcileMembers\<close> issues for the unknown
  members: \<open>removePod(m.Name, true)\<close>, the flag meaning that the deletion may wait.
\<close>

definition pruneCalls :: "MemberSet \<Rightarrow> call list" where
  "pruneCalls unknownMembers = map (\<lambda>(n, m). CallRemovePod (Name m) True) unknownMembers"



text \<open>
  Kubernetes accepts as the name of a pod, of a cluster object or of a namespace only
  lower-case letters, digits, \<open>-\<close> and \<open>.\<close>; every name the operator handles
  is one of these, or is built from one by \<open>newMember\<close>.
\<close>

definition isNameChar :: "char \<Rightarrow> bool" where
  "isNameChar ch =
     ((97 \<le> (of_char ch :: nat) \<and> (of_char ch :: nat) \<le> 122) \<or> isDigit ch
      \<or> ch = CHR ''-'' \<or> ch = CHR ''.'')"

definition kubeName :: "string \<Rightarrow> bool" where
  "kubeName s = list_all isNameChar s"



text \<open>
  The role field of a server line
  \<open>server.<id>=<peerAddr>:<peerPort>:<leaderPort>:<role>;<clientAddr>:<clientPort>\<close>:
  of the part before the first \<open>;\<close>, what follows the last \<open>:\<close>.
\<close>

definition roleOfLine :: "string \<Rightarrow> string" where
  "roleOfLine serverConfig = last (Split (hd (Split serverConfig CHR '';'')) CHR '':'')"

text \<open>
  \<open>panic("empty")\<close> is raised by \<open>PickOne\<close> alone: the collaborators do not
  return it.
\<close>

definition noEmptyPanic :: "env \<Rightarrow> bool" where
  "noEmptyPanic ev =
     ((\<forall>name wait. removePod ev name wait \<noteq> Some PanicEmpty)
      \<and> (\<forall>existingCluster m state. createPod ev existingCluster m state \<noteq> Some PanicEmpty))"

subsection \<open>Concrete clusters\<close>

definition exMember :: "string \<Rightarrow> Member" where
  "exMember n = \<lparr>Name = n, Namespace = ''default''\<rparr>"

definition exMembers :: "string list \<Rightarrow> MemberSet" where
  "exMembers ns = map (\<lambda>n. (n, exMember n)) ns"

definition exPod :: "string \<Rightarrow> string \<Rightarrow> Pod" where
  "exPod n v =
     \<lparr>PodName = n, PodNamespace = ''default'', Annotations = [''zookeeper.version'' \<mapsto> v]\<rparr>"

definition exSpec :: "int \<Rightarrow> ClusterSpec" where
  "exSpec n = \<lparr>SpecSize = n, Version = ''3.5.3'', Paused = False\<rparr>"

definition exCluster :: "string list \<Rightarrow> int \<Rightarrow> Cluster" where
  "exCluster ns n =
     \<lparr>members = exMembers ns, clusterName = ''c'', clusterNamespace = ''default'',
      spec = exSpec n, statusSize = 0, calls = []\<rparr>"

text \<open>An environment in which every call succeeds and the ensemble reports \<open>dataStr\<close>.\<close>

definition exEnv :: "string \<Rightarrow> env" where
  "exEnv dataStr =
     \<lparr>zkConnect = (\<lambda>hosts. None),
      zkGet = (\<lambda>hosts. Inr dataStr),
      zkReconfig = (\<lambda>hosts newMembers. Inr dataStr),
      removePod = (\<lambda>name wait. None),
      createPod = (\<lambda>existingCluster m state. None),
      upgradeOneMember = (\<lambda>name ms. (None, ms))\<rparr>"

text \<open>The same environment, except that no pod can be deleted.\<close>

definition exEnvRemoveFails :: env where
  "exEnvRemoveFails =
     (exEnv [])\<lparr>removePod := (\<lambda>name wait. Some (KubeError ''forbidden''))\<rparr>"

text \<open>Environments in which the ensemble cannot be reached, or refuses to reconfigure.\<close>

definition exEnvConnectFails :: env where
  "exEnvConnectFails = (exEnv [])\<lparr>zkConnect := (\<lambda>hosts. Some (ZkError ''connect''))\<rparr>"

definition exEnvReconfigFails :: "string \<Rightarrow> env" where
  "exEnvReconfigFails dataStr =
     (exEnv dataStr)\<lparr>zkReconfig := (\<lambda>hosts newMembers. Inl (ZkError ''bad version''))\<rparr>"

text \<open>The payload of the configuration node for given server lines, its host and line texts.\<close>

definition exData :: "string list \<Rightarrow> string" where
  "exData servers = Join (servers @ [''version=100000000'']) [CHR 0x0A]"

definition exLine :: "string \<Rightarrow> string \<Rightarrow> string" where
  "exLine i n =
     ''server.'' @ i @ ''='' @ n @ ''.c.default.svc:2888:3888:participant;'' @ n
       @ ''.c.default.svc:2181''"

definition exHost :: "string \<Rightarrow> string" where
  "exHost n = n @ ''.c.default.svc:2181''"

definition exPods :: "string list \<Rightarrow> Pod list" where
  "exPods ns = map (\<lambda>n. exPod n ''3.5.3'') ns"

section \<open>The member set\<close>



lemma length_Remove_le: "length (Remove ms n) \<le> length ms"
  by (simp add: Remove_def)


lemma Diff_Diff_empty: "Diff (Diff A B) A = []"
  by (force simp: Diff_def filter_empty_conv hasKey_def)

lemma Diff_self_empty: "Diff A A = []"
  by (force simp: Diff_def filter_empty_conv hasKey_def)

lemma IsEqual_subset:
  "IsEqual A B = (length A = length B \<and> set (map fst A) \<subseteq> set (map fst B))"
  by (force simp: IsEqual_def Size_def list_all_iff hasKey_def)

lemma IsEqual_refl: "IsEqual A A"
  by (simp add: IsEqual_subset)

lemma IsEqual_keys:
  assumes "distinct (map fst A)" "distinct (map fst B)"
  shows "IsEqual A B = (Size A = Size B \<and> set (map fst A) = set (map fst B))"
proof -
  have "set (map fst A) = set (map fst B)"
    if len: "length A = length B" and sub: "set (map fst A) \<subseteq> set (map fst B)"
  proof -
    have "card (set (map fst A)) = length A" "card (set (map fst B)) = length B"
      using assms distinct_card[of "map fst A"] distinct_card[of "map fst B"] by simp_all
    with len sub show ?thesis
      by (metis List.finite_set card_subset_eq)
  qed
  then show ?thesis
    by (auto simp: IsEqual_subset Size_def)
qed

lemma wf_names: "wfMemberSet ms \<Longrightarrow> map (\<lambda>(n, m). Name m) ms = map fst ms"
  by (auto simp: wfMemberSet_def list_all_iff)

lemma IsEqual_names:
  assumes "wfMemberSet A" "wfMemberSet B"
  shows "IsEqual A B = (Size A = Size B
      \<and> set (map (\<lambda>(n, m). Name m) A) = set (map (\<lambda>(n, m). Name m) B))"
proof -
  from assms have "distinct (map fst A)" "distinct (map fst B)"
    by (simp_all add: wfMemberSet_def)
  then show ?thesis
    using wf_names [OF assms(1)] wf_names [OF assms(2)] by (simp only: IsEqual_keys)
qed

lemma IsEqual_fields:
  "IsEqual (map (\<lambda>(n, m). (n, f m)) A) (map (\<lambda>(n, m). (n, g m)) B) = IsEqual A B"
  by (simp add: IsEqual_subset comp_def case_prod_beta)


lemma PickOne_Inl: "(PickOne ms = Inl e) = (ms = [] \<and> e = PanicEmpty)"
  by (auto simp: PickOne_def split: list.splits)

lemma PickOne_nonempty: "ms \<noteq> [] \<Longrightarrow> \<exists>m. PickOne ms = Inr m"
  by (cases ms) (auto simp: PickOne_def)



lemma hasKey_Diff: "hasKey (Diff A B) k = (hasKey A k \<and> \<not> hasKey B k)"
  by (force simp: hasKey_def Diff_def)

lemma distinct_Diff: "distinct (map fst A) \<Longrightarrow> distinct (map fst (Diff A B))"
  by (simp add: Diff_def distinct_map_filter)

lemma Diff_nil: "Diff A [] = A"
  by (simp add: Diff_def hasKey_def)

lemma Diff_eq_Nil: "(Diff A B = []) = (\<forall>k. hasKey A k \<longrightarrow> hasKey B k)"
  by (force simp: Diff_def filter_empty_conv hasKey_def)

lemma Diff_eq_Nil_all: "(Diff A B = []) = list_all (\<lambda>(n, m). hasKey B n) A"
  by (force simp: Diff_def filter_empty_conv list_all_iff)

lemma dead_member_exists:
  assumes dM: "distinct (map fst M)" and dR: "distinct (map fst R)"
    and ne: "Size (Diff R (Diff R M)) \<noteq> Size M"
  shows "Diff M (Diff R (Diff R M)) \<noteq> []"
proof
  let ?L = "Diff R (Diff R M)"
  assume "Diff M ?L = []"
  then have "\<forall>k. hasKey M k \<longrightarrow> hasKey ?L k" by (simp add: Diff_eq_Nil)
  moreover have "\<forall>k. hasKey ?L k \<longrightarrow> hasKey M k" by (auto simp: hasKey_Diff)
  ultimately have "set (map fst M) = set (map fst ?L)"
    unfolding hasKey_def by blast
  moreover have "distinct (map fst ?L)" using dR by (rule distinct_Diff)
  ultimately have "length (map fst M) = length (map fst ?L)"
    using dM by (metis distinct_card)
  with ne show False by (simp add: Size_def)
qed




text \<open>
  C7. For all member sets \<open>A\<close> and \<open>B\<close>: \<open>A.Diff(B).Diff(A)\<close> is empty,
  \<open>A.Diff(A)\<close> is empty, \<open>A.IsEqual(A)\<close> is true, and, the keys of a Go map being
  distinct, \<open>A.IsEqual(B)\<close> holds exactly when \<open>A\<close> and \<open>B\<close> have the same size
  and the same set of keys, which are the names of the members in every member set
  the operator builds. The members stored under the keys play no part: replacing
  them by any others leaves \<open>IsEqual\<close> as it is.
\<close>

theorem memberset_algebra:
  "Diff (Diff A B) A = [] \<and> Diff A A = [] \<and> IsEqual A A
   \<and> (distinct (map fst A) \<and> distinct (map fst B) \<longrightarrow>
        IsEqual A B = (Size A = Size B \<and> set (map fst A) = set (map fst B)))
   \<and> (wfMemberSet A \<and> wfMemberSet B \<longrightarrow>
        IsEqual A B = (Size A = Size B
          \<and> set (map (\<lambda>(n, m). Name m) A) = set (map (\<lambda>(n, m). Name m) B)))
   \<and> IsEqual (map (\<lambda>(n, m). (n, f m)) A) (map (\<lambda>(n, m). (n, g m)) B) = IsEqual A B"
  using Diff_Diff_empty Diff_self_empty IsEqual_refl IsEqual_keys IsEqual_names IsEqual_fields
  by blast

theorem memberset_algebra_witness:
  "wfMemberSet (exMembers [''c-1'', ''c-2'']) \<and> wfMemberSet (exMembers [''c-2'', ''c-1''])
   \<and> distinct (map fst (exMembers [''c-1'', ''c-2'']))
   \<and> distinct (map fst (exMembers [''c-2'', ''c-1'']))
   \<and> IsEqual (exMembers [''c-1'', ''c-2'']) (exMembers [''c-2'', ''c-1''])
   \<and> Size (exMembers [''c-1'', ''c-2'']) = Size (exMembers [''c-2'', ''c-1''])
   \<and> set (map fst (exMembers [''c-1'', ''c-2''])) = set (map fst (exMembers [''c-2'', ''c-1'']))
   \<and> Diff (Diff (exMembers [''c-1'', ''c-2'']) (exMembers [''c-2'', ''c-1'']))
        (exMembers [''c-1'', ''c-2'']) = []"
  using memberset_algebra [of "exMembers [''c-1'', ''c-2'']" "exMembers [''c-2'', ''c-1'']"]
  by (auto simp: exMembers_def exMember_def Size_def wfMemberSet_def)

section \<open>The upgrade predicates\<close>

lemma pickOneOldMember_find:
  "pickOneOldMember pods v =
     map_option (\<lambda>pod. \<lparr>Name = PodName pod, Namespace = PodNamespace pod\<rparr>)
       (find (\<lambda>pod. GetZookeeperVersion pod \<noteq> v) pods)"
  by (induction pods) auto

text \<open>
  C8. \<open>needUpgrade(pods, spec)\<close> is true if and only if the number of pods equals
  \<open>spec.Size\<close> and at least one pod's recorded version (the annotation
  \<open>zookeeper.version\<close>, empty when absent) differs from \<open>spec.Version\<close>;
  \<open>pickOneOldMember(pods, targetVersion)\<close> is the member of the first pod, in the
  order of the list, whose recorded version differs from the target, and none when
  every pod's version is the target.
\<close>

theorem upgrade_predicates:
  "needUpgrade pods cs =
     (int (length pods) = SpecSize cs
      \<and> (\<exists>pod \<in> set pods. GetZookeeperVersion pod \<noteq> Version cs))
   \<and> pickOneOldMember pods v =
       map_option (\<lambda>pod. \<lparr>Name = PodName pod, Namespace = PodNamespace pod\<rparr>)
         (find (\<lambda>pod. GetZookeeperVersion pod \<noteq> v) pods)"
  by (auto simp: needUpgrade_def pickOneOldMember_find find_None_iff)

theorem upgrade_predicates_witness:
  "needUpgrade [exPod ''c-1'' ''3.5.3'', exPod ''c-2'' ''3.4.0'', exPod ''c-3'' ''3.5.3'']
     (exSpec 3)
   \<and> pickOneOldMember
       [exPod ''c-1'' ''3.5.3'', exPod ''c-2'' ''3.4.0'', exPod ''c-3'' ''3.5.3''] ''3.5.3''
     = Some (exMember ''c-2'')
   \<and> \<not> needUpgrade [exPod ''c-1'' ''3.5.3'', exPod ''c-2'' ''3.4.0''] (exSpec 3)"
  using upgrade_predicates
    [of "[exPod ''c-1'' ''3.5.3'', exPod ''c-2'' ''3.4.0'', exPod ''c-3'' ''3.5.3'']"
        "exSpec 3" "''3.5.3''"]
    upgrade_predicates [of "[exPod ''c-1'' ''3.5.3'', exPod ''c-2'' ''3.4.0'']" "exSpec 3" "''3.5.3''"]
  by (simp add: exPod_def exSpec_def exMember_def GetZookeeperVersion_def)

section \<open>The quorum and scaling engine\<close>

subsection \<open>What each step does to the members and which calls it makes\<close>

lemma removeUnexpected_frame:
  "removeUnexpected ev us c = (r, c') \<Longrightarrow>
     \<exists>k \<le> length us. c' = c\<lparr>calls := calls c @ pruneCalls (take k us)\<rparr> \<and> (r = None \<longrightarrow> k = length us)"
proof (induction us arbitrary: c)
  case Nil
  then show ?case by (auto simp: pruneCalls_def)
next
  case (Cons u us)
  obtain n m where u: "u = (n, m)" by (cases u)
  let ?c1 = "record_call (CallRemovePod (Name m) True) c"
  show ?case
  proof (cases "removePod ev (Name m) True")
    case (Some err)
    with Cons.prems u have "c' = ?c1" "r = Some err" by auto
    then have "c' = c\<lparr>calls := calls c @ pruneCalls (take 1 (u # us))\<rparr>"
      by (simp add: u pruneCalls_def record_call_def)
    with \<open>r = Some err\<close> show ?thesis by (intro exI[of _ 1]) auto
  next
    case None
    with Cons.prems u have "removeUnexpected ev us ?c1 = (r, c')" by simp
    from Cons.IH[OF this] obtain k where k: "k \<le> length us"
      "c' = ?c1\<lparr>calls := calls ?c1 @ pruneCalls (take k us)\<rparr>" "r = None \<longrightarrow> k = length us"
      by blast
    then have "c' = c\<lparr>calls := calls c @ pruneCalls (take (Suc k) (u # us))\<rparr>"
      by (simp add: u pruneCalls_def record_call_def)
    with k show ?thesis by (intro exI[of _ "Suc k"]) auto
  qed
qed

lemma removeUnexpected_ok:
  "list_all (\<lambda>(n, m). removePod ev (Name m) True = None) us \<Longrightarrow>
     removeUnexpected ev us c = (None, c\<lparr>calls := calls c @ pruneCalls us\<rparr>)"
proof (induction us arbitrary: c)
  case Nil
  then show ?case by (simp add: pruneCalls_def)
next
  case (Cons u us)
  then show ?case by (cases u) (simp add: pruneCalls_def record_call_def)
qed






lemma reconcileMembers_pruned:
  assumes "list_all (\<lambda>(n, m). removePod ev (Name m) True = None) (Diff running (members c))"
  shows "reconcileMembers ev running c =
     (let c1 = c\<lparr>calls := calls c @ pruneCalls (Diff running (members c))\<rparr>;
          L = Diff running (Diff running (members c))
      in if Size L = Size (members c) then resize ev c1
         else if Size L < Size (members c) div 2 + 1 then (Some ErrLostQuorum, c1)
         else (case PickOne (Diff (members c) L) of
                 Inl e \<Rightarrow> (Some e, c1)
               | Inr m \<Rightarrow> replaceDeadMember ev m c1))"
  using removeUnexpected_ok[OF assms, of c]
  by (simp add: reconcileMembers_def Let_def)

lemma removeUnexpected_fails:
  assumes "\<not> list_all (\<lambda>(n, m). removePod ev (Name m) True = None) us"
  shows "\<exists>j < length us.
           list_all (\<lambda>(n, m). removePod ev (Name m) True = None) (take j us)
         \<and> removePod ev (Name (snd (us ! j))) True \<noteq> None
         \<and> removeUnexpected ev us c =
             (removePod ev (Name (snd (us ! j))) True,
              c\<lparr>calls := calls c @ pruneCalls (take (Suc j) us)\<rparr>)"
  using assms
proof (induction us arbitrary: c)
  case Nil
  then show ?case by simp
next
  case (Cons u us)
  obtain n m where u: "u = (n, m)" by (cases u)
  let ?c1 = "record_call (CallRemovePod (Name m) True) c"
  show ?case
  proof (cases "removePod ev (Name m) True")
    case (Some err)
    then have "removeUnexpected ev (u # us) c =
        (removePod ev (Name (snd ((u # us) ! 0))) True,
         c\<lparr>calls := calls c @ pruneCalls (take (Suc 0) (u # us))\<rparr>)"
      by (simp add: u pruneCalls_def record_call_def)
    moreover have "removePod ev (Name (snd ((u # us) ! 0))) True \<noteq> None"
      using Some by (simp add: u)
    ultimately show ?thesis by (intro exI[of _ 0]) simp
  next
    case None
    with Cons.prems u have "\<not> list_all (\<lambda>(n, m). removePod ev (Name m) True = None) us"
      by simp
    from Cons.IH[OF this, of ?c1] obtain j where j: "j < length us"
      "list_all (\<lambda>(n, m). removePod ev (Name m) True = None) (take j us)"
      "removePod ev (Name (snd (us ! j))) True \<noteq> None"
      "removeUnexpected ev us ?c1 =
         (removePod ev (Name (snd (us ! j))) True,
          ?c1\<lparr>calls := calls ?c1 @ pruneCalls (take (Suc j) us)\<rparr>)"
      by blast
    have "removeUnexpected ev (u # us) c =
        (removePod ev (Name (snd ((u # us) ! Suc j))) True,
         c\<lparr>calls := calls c @ pruneCalls (take (Suc (Suc j)) (u # us))\<rparr>)"
      using j(4) None by (simp add: u pruneCalls_def record_call_def)
    moreover have "list_all (\<lambda>(n, m). removePod ev (Name m) True = None) (take (Suc j) (u # us))"
      using j(2) None by (simp add: u)
    moreover have "removePod ev (Name (snd ((u # us) ! Suc j))) True \<noteq> None"
      using j(3) by simp
    ultimately show ?thesis using j(1) by (intro exI[of _ "Suc j"]) simp
  qed
qed

lemma reconcileMembers_prune_fails:
  assumes "\<not> list_all (\<lambda>(n, m). removePod ev (Name m) True = None) (Diff running (members c))"
  shows "\<exists>j < length (Diff running (members c)).
           list_all (\<lambda>(n, m). removePod ev (Name m) True = None)
             (take j (Diff running (members c)))
         \<and> removePod ev (Name (snd (Diff running (members c) ! j))) True \<noteq> None
         \<and> reconcileMembers ev running c =
             (removePod ev (Name (snd (Diff running (members c) ! j))) True,
              c\<lparr>calls := calls c @ pruneCalls (take (Suc j) (Diff running (members c)))\<rparr>)"
proof -
  from removeUnexpected_fails[OF assms, of c] obtain j where
    j: "j < length (Diff running (members c))"
      "list_all (\<lambda>(n, m). removePod ev (Name m) True = None) (take j (Diff running (members c)))"
      "removePod ev (Name (snd (Diff running (members c) ! j))) True \<noteq> None"
      "removeUnexpected ev (Diff running (members c)) c =
         (removePod ev (Name (snd (Diff running (members c) ! j))) True,
          c\<lparr>calls := calls c @ pruneCalls (take (Suc j) (Diff running (members c)))\<rparr>)"
    by blast
  from j(3) obtain err where "removePod ev (Name (snd (Diff running (members c) ! j))) True = Some err"
    by auto
  with j(4) have "reconcileMembers ev running c =
             (removePod ev (Name (snd (Diff running (members c) ! j))) True,
              c\<lparr>calls := calls c @ pruneCalls (take (Suc j) (Diff running (members c)))\<rparr>)"
    by (simp add: reconcileMembers_def)
  with j show ?thesis by blast
qed







subsection \<open>One step per pass\<close>




subsection \<open>Lost quorum\<close>

text \<open>
  C2, as the code has it. Let \<open>L\<close> be the running members that are known. When
  \<open>L.Size() < members.Size()/2 + 1\<close> and \<open>L.Size() != members.Size()\<close>, the pass
  leaves the members as they are. If the deletion of every unknown pod succeeds, it
  returns \<open>ErrLostQuorum\<close>, having made no other call; if one of these deletions
  fails, it returns the error of that deletion, the failed call being its last; and
  if every running pod is a known member it returns \<open>ErrLostQuorum\<close> and changes
  nothing at all. For five members: with two of them running the pass returns
  \<open>ErrLostQuorum\<close>, with three it replaces one dead member.
\<close>

theorem lost_quorum_aborts:
  "(Size (Diff running (Diff running (members c))) < Size (members c) div 2 + 1
      \<and> Size (Diff running (Diff running (members c))) \<noteq> Size (members c)
    \<longrightarrow> members (snd (reconcileMembers ev running c)) = members c
        \<and> (list_all (\<lambda>(n, m). removePod ev (Name m) True = None) (Diff running (members c))
           \<longrightarrow> reconcileMembers ev running c =
                 (Some ErrLostQuorum,
                  c\<lparr>calls := calls c @ pruneCalls (Diff running (members c))\<rparr>))
        \<and> (\<not> list_all (\<lambda>(n, m). removePod ev (Name m) True = None) (Diff running (members c))
           \<longrightarrow> (\<exists>j < length (Diff running (members c)).
                   list_all (\<lambda>(n, m). removePod ev (Name m) True = None)
                     (take j (Diff running (members c)))
                 \<and> removePod ev (Name (snd (Diff running (members c) ! j))) True \<noteq> None
                 \<and> reconcileMembers ev running c =
                     (removePod ev (Name (snd (Diff running (members c) ! j))) True,
                      c\<lparr>calls := calls c
                          @ pruneCalls (take (Suc j) (Diff running (members c)))\<rparr>)))
        \<and> (list_all (\<lambda>(n, m). hasKey (members c) n) running
           \<longrightarrow> reconcileMembers ev running c = (Some ErrLostQuorum, c)))
   \<and> (Size (members c) = 5 \<and> Size running = 2
        \<and> list_all (\<lambda>(n, m). hasKey (members c) n) running
      \<longrightarrow> reconcileMembers ev running c = (Some ErrLostQuorum, c))
   \<and> (Size (members c) = 5 \<and> Size running = 3
        \<and> list_all (\<lambda>(n, m). hasKey (members c) n) running
        \<and> distinct (map fst (members c)) \<and> distinct (map fst running)
      \<longrightarrow> (\<exists>m. PickOne (Diff (members c) running) = Inr m
             \<and> reconcileMembers ev running c = replaceDeadMember ev m c))"
proof -
  let ?U = "Diff running (members c)"
  let ?L = "Diff running ?U"
  have known: "reconcileMembers ev running c =
         (if Size running = Size (members c) then resize ev c
          else if Size running < Size (members c) div 2 + 1 then (Some ErrLostQuorum, c)
          else (case PickOne (Diff (members c) running) of
                  Inl e \<Rightarrow> (Some e, c)
                | Inr m \<Rightarrow> replaceDeadMember ev m c))"
    if "list_all (\<lambda>(n, m). hasKey (members c) n) running"
  proof -
    from that have U: "?U = []" by (simp add: Diff_eq_Nil_all)
    then show ?thesis
      by (simp add: reconcileMembers_def Diff_nil)
  qed
  have lost: "members (snd (reconcileMembers ev running c)) = members c
        \<and> (list_all (\<lambda>(n, m). removePod ev (Name m) True = None) ?U
           \<longrightarrow> reconcileMembers ev running c =
                 (Some ErrLostQuorum, c\<lparr>calls := calls c @ pruneCalls ?U\<rparr>))
        \<and> (\<not> list_all (\<lambda>(n, m). removePod ev (Name m) True = None) ?U
           \<longrightarrow> (\<exists>j < length ?U.
                   list_all (\<lambda>(n, m). removePod ev (Name m) True = None) (take j ?U)
                 \<and> removePod ev (Name (snd (?U ! j))) True \<noteq> None
                 \<and> reconcileMembers ev running c =
                     (removePod ev (Name (snd (?U ! j))) True,
                      c\<lparr>calls := calls c @ pruneCalls (take (Suc j) ?U)\<rparr>)))
        \<and> (list_all (\<lambda>(n, m). hasKey (members c) n) running
           \<longrightarrow> reconcileMembers ev running c = (Some ErrLostQuorum, c))"
    if q: "Size ?L < Size (members c) div 2 + 1 \<and> Size ?L \<noteq> Size (members c)"
  proof (intro conjI impI)
    obtain r1 c1 where ru: "removeUnexpected ev ?U c = (r1, c1)"
      by (cases "removeUnexpected ev ?U c")
    from removeUnexpected_frame[OF ru] have m1: "members c1 = members c" by auto
    show "members (snd (reconcileMembers ev running c)) = members c"
      using ru m1 q by (cases r1) (simp_all add: reconcileMembers_def Let_def)
  next
    assume "list_all (\<lambda>(n, m). removePod ev (Name m) True = None) ?U"
    from reconcileMembers_pruned[OF this] q
    show "reconcileMembers ev running c =
            (Some ErrLostQuorum, c\<lparr>calls := calls c @ pruneCalls ?U\<rparr>)"
      by (simp add: Let_def)
  next
    assume "\<not> list_all (\<lambda>(n, m). removePod ev (Name m) True = None) ?U"
    then show "\<exists>j < length ?U.
                   list_all (\<lambda>(n, m). removePod ev (Name m) True = None) (take j ?U)
                 \<and> removePod ev (Name (snd (?U ! j))) True \<noteq> None
                 \<and> reconcileMembers ev running c =
                     (removePod ev (Name (snd (?U ! j))) True,
                      c\<lparr>calls := calls c @ pruneCalls (take (Suc j) ?U)\<rparr>)"
      by (rule reconcileMembers_prune_fails)
  next
    assume k: "list_all (\<lambda>(n, m). hasKey (members c) n) running"
    then have "?U = []" by (simp add: Diff_eq_Nil_all)
    with q known[OF k] show "reconcileMembers ev running c = (Some ErrLostQuorum, c)"
      by (simp add: Diff_nil)
  qed
  have five2: "reconcileMembers ev running c = (Some ErrLostQuorum, c)"
    if "Size (members c) = 5 \<and> Size running = 2
        \<and> list_all (\<lambda>(n, m). hasKey (members c) n) running"
    using that known by simp
  have five3: "\<exists>m. PickOne (Diff (members c) running) = Inr m
             \<and> reconcileMembers ev running c = replaceDeadMember ev m c"
    if h: "Size (members c) = 5 \<and> Size running = 3
        \<and> list_all (\<lambda>(n, m). hasKey (members c) n) running
        \<and> distinct (map fst (members c)) \<and> distinct (map fst running)"
  proof -
    from h have U: "?U = []" by (simp add: Diff_eq_Nil_all)
    with h have "Diff (members c) running \<noteq> []"
      using dead_member_exists[of "members c" running] by (simp add: Diff_nil)
    then obtain m where m: "PickOne (Diff (members c) running) = Inr m"
      using PickOne_nonempty by blast
    with h known show ?thesis by simp
  qed
  from lost five2 five3 show ?thesis by blast
qed


theorem lost_quorum_aborts_witness:
  "Size (Diff (exMembers [''c-1'', ''c-2''])
       (Diff (exMembers [''c-1'', ''c-2''])
          (members (exCluster [''c-1'', ''c-2'', ''c-3'', ''c-4'', ''c-5''] 5))))
     < Size (members (exCluster [''c-1'', ''c-2'', ''c-3'', ''c-4'', ''c-5''] 5)) div 2 + 1
   \<and> list_all (\<lambda>(n, m). hasKey (members (exCluster [''c-1'', ''c-2'', ''c-3'', ''c-4'', ''c-5''] 5)) n)
        (exMembers [''c-1'', ''c-2''])
   \<and> reconcileMembers (exEnv []) (exMembers [''c-1'', ''c-2''])
        (exCluster [''c-1'', ''c-2'', ''c-3'', ''c-4'', ''c-5''] 5)
       = (Some ErrLostQuorum, exCluster [''c-1'', ''c-2'', ''c-3'', ''c-4'', ''c-5''] 5)
   \<and> Size (exMembers [''c-1'', ''c-2'', ''c-4'']) = 3
   \<and> reconcileMembers (exEnv []) (exMembers [''c-1'', ''c-2'', ''c-4''])
        (exCluster [''c-1'', ''c-2'', ''c-3'', ''c-4'', ''c-5''] 5)
       = replaceDeadMember (exEnv []) (exMember ''c-3'')
           (exCluster [''c-1'', ''c-2'', ''c-3'', ''c-4'', ''c-5''] 5)"
proof -
  let ?c = "exCluster [''c-1'', ''c-2'', ''c-3'', ''c-4'', ''c-5''] 5"
  let ?r2 = "exMembers [''c-1'', ''c-2'']"
  let ?r3 = "exMembers [''c-1'', ''c-2'', ''c-4'']"
  have q: "Size (Diff ?r2 (Diff ?r2 (members ?c))) < Size (members ?c) div 2 + 1"
    "Size (Diff ?r2 (Diff ?r2 (members ?c))) \<noteq> Size (members ?c)"
    by code_simp+
  have k2: "list_all (\<lambda>(n, m). hasKey (members ?c) n) ?r2" by code_simp
  have k3: "list_all (\<lambda>(n, m). hasKey (members ?c) n) ?r3" by code_simp
  have s3: "Size (members ?c) = 5" "Size ?r3 = 3"
    "distinct (map fst (members ?c))" "distinct (map fst ?r3)" by code_simp+
  have p3: "PickOne (Diff (members ?c) ?r3) = Inr (exMember ''c-3'')" by code_simp
  from lost_quorum_aborts [of ?r2 ?c "exEnv []"] q k2
  have a: "reconcileMembers (exEnv []) ?r2 ?c = (Some ErrLostQuorum, ?c)" by blast
  from lost_quorum_aborts [of ?r3 ?c "exEnv []"] s3 k3 p3
  have b: "reconcileMembers (exEnv []) ?r3 ?c = replaceDeadMember (exEnv []) (exMember ''c-3'') ?c"
    by auto
  from q k2 a s3 b show ?thesis by blast
qed

text \<open>
  C2 as stated fails when an unknown pod is running and its deletion fails: the pass
  then returns the error of the deletion, not \<open>ErrLostQuorum\<close>.
\<close>

theorem lost_quorum_prune_error:
  "Size (Diff (exMembers [''c-1'', ''x-9''])
       (Diff (exMembers [''c-1'', ''x-9''])
          (members (exCluster [''c-1'', ''c-2'', ''c-3'', ''c-4'', ''c-5''] 5))))
     < Size (members (exCluster [''c-1'', ''c-2'', ''c-3'', ''c-4'', ''c-5''] 5)) div 2 + 1
   \<and> Size (Diff (exMembers [''c-1'', ''x-9''])
       (Diff (exMembers [''c-1'', ''x-9''])
          (members (exCluster [''c-1'', ''c-2'', ''c-3'', ''c-4'', ''c-5''] 5))))
     \<noteq> Size (members (exCluster [''c-1'', ''c-2'', ''c-3'', ''c-4'', ''c-5''] 5))
   \<and> reconcileMembers exEnvRemoveFails (exMembers [''c-1'', ''x-9''])
        (exCluster [''c-1'', ''c-2'', ''c-3'', ''c-4'', ''c-5''] 5)
       = (Some (KubeError ''forbidden''),
          (exCluster [''c-1'', ''c-2'', ''c-3'', ''c-4'', ''c-5''] 5)\<lparr>calls :=
             [CallRemovePod ''x-9'' True]\<rparr>)
   \<and> fst (reconcileMembers exEnvRemoveFails (exMembers [''c-1'', ''x-9''])
        (exCluster [''c-1'', ''c-2'', ''c-3'', ''c-4'', ''c-5''] 5)) \<noteq> Some ErrLostQuorum"
  by code_simp

subsection \<open>The guards of \<open>PickOne\<close>\<close>

lemma forEach_Inl: "forEach f ms = Inl e \<Longrightarrow> \<exists>(n, m) \<in> set ms. f m = Inl e"
proof (induction ms)
  case Nil
  then show ?case by simp
next
  case (Cons a ms)
  obtain n m where a: "a = (n, m)" by (cases a)
  from Cons show ?case
    by (cases "f m"; cases "forEach f ms") (auto simp: a)
qed

lemma Addr_Inl: "Addr m = Inl e \<Longrightarrow> e = PanicUnexpectedMemberName (Name m)"
  by (auto simp: Addr_def clusterNameFromMemberName_def Let_def split: sum.splits if_splits)

lemma ClusterConfig_Inl: "ClusterConfig ms = Inl e \<Longrightarrow> e \<noteq> PanicEmpty"
proof -
  assume "ClusterConfig ms = Inl e"
  then have "forEach (serverLine ''participant'') ms = Inl e"
    by (auto simp: ClusterConfig_def split: sum.splits)
  from forEach_Inl[OF this] obtain n m where "serverLine ''participant'' m = Inl e" by blast
  then have "Addr m = Inl e" by (auto simp: serverLine_def split: sum.splits)
  from Addr_Inl[OF this] show ?thesis by simp
qed

lemma ClientHostList_Inl: "ClientHostList ms = Inl e \<Longrightarrow> e \<noteq> PanicEmpty"
proof -
  assume "ClientHostList ms = Inl e"
  then have "forEach clientHost ms = Inl e" by (simp add: ClientHostList_def)
  from forEach_Inl[OF this] obtain n m where "clientHost m = Inl e" by blast
  then have "Addr m = Inl e" by (auto simp: clientHost_def split: sum.splits)
  from Addr_Inl[OF this] show ?thesis by simp
qed

lemma addMember_no_empty_panic:
  assumes "noEmptyPanic ev"
  shows "fst (addMember ev m st c) \<noteq> Some PanicEmpty"
proof (cases "ClusterConfig (members c)")
  case (Inl e)
  with ClusterConfig_Inl[OF Inl] show ?thesis by (simp add: addMember_def)
next
  case (Inr existing)
  show ?thesis
  proof (cases "createPod ev existing m st")
    case None
    with Inr show ?thesis by (simp add: addMember_def Let_def)
  next
    case (Some err)
    with assms have "err \<noteq> PanicEmpty" by (auto simp: noEmptyPanic_def)
    with Inr Some show ?thesis by (simp add: addMember_def Let_def)
  qed
qed

lemma removeMember_no_empty_panic:
  assumes "noEmptyPanic ev"
  shows "fst (removeMember ev m w c) \<noteq> Some PanicEmpty"
proof -
  have rp: "removePod ev (Name m) w \<noteq> Some PanicEmpty"
    using assms by (simp add: noEmptyPanic_def)
  let ?ms = "Remove (members c) (Name m)"
  show ?thesis
  proof (cases "w \<and> (\<exists>e. ClientHostList ?ms = Inl e)")
    case True
    then obtain e where e: "ClientHostList ?ms = Inl e" by blast
    with ClientHostList_Inl[OF e] True show ?thesis
      by (simp add: removeMember_def Let_def)
  next
    case n1: False
    show ?thesis
    proof (cases "w \<and> (\<exists>e. ClusterConfig ?ms = Inl e)")
      case True
      then obtain e where e: "ClusterConfig ?ms = Inl e" by blast
      with ClusterConfig_Inl[OF e] True n1 show ?thesis
        by (auto simp: removeMember_def Let_def split: sum.splits)
    next
      case False
      with n1 rp show ?thesis
        by (cases "removePod ev (Name m) w")
           (auto simp: removeMember_def Let_def split: sum.splits if_splits)
    qed
  qed
qed

lemma replaceDeadMember_no_empty_panic:
  assumes "noEmptyPanic ev"
  shows "fst (replaceDeadMember ev m c) \<noteq> Some PanicEmpty"
proof -
  let ?c1 = "record_call (ReplacingDeadMemberEvent (Name m)) c"
  obtain r2 c2 where rm: "removeMember ev m False ?c1 = (r2, c2)"
    by (cases "removeMember ev m False ?c1")
  from removeMember_no_empty_panic[OF assms, of m False ?c1] rm
  have r2: "r2 \<noteq> Some PanicEmpty" by simp
  show ?thesis
  proof (cases r2)
    case None
    with rm addMember_no_empty_panic[OF assms, of m "''replacement''" c2] show ?thesis
      by (simp add: replaceDeadMember_def)
  next
    case (Some err)
    with rm r2 show ?thesis by (simp add: replaceDeadMember_def)
  qed
qed

lemma resize_no_empty_panic:
  assumes "noEmptyPanic ev" and "1 \<le> SpecSize (spec c)"
  shows "fst (resize ev c) \<noteq> Some PanicEmpty"
proof -
  consider (eq) "Size (members c) = SpecSize (spec c)"
    | (up) "Size (members c) < SpecSize (spec c)"
    | (down) "SpecSize (spec c) < Size (members c)" by linarith
  then show ?thesis
  proof cases
    case eq
    then show ?thesis by (simp add: resize_def)
  next
    case up
    then show ?thesis
      using addMember_no_empty_panic[OF assms(1)]
      by (simp add: resize_def addOneMember_def Let_def)
  next
    case down
    with assms(2) have "members c \<noteq> []" by (auto simp: Size_def)
    then obtain m where "PickOne (members c) = Inr m" using PickOne_nonempty by blast
    with down show ?thesis
      using removeMember_no_empty_panic[OF assms(1)]
      by (simp add: resize_def removeOneMember_def Let_def record_call_def)
  qed
qed

lemma reconcileMembers_no_empty_panic:
  assumes ne: "noEmptyPanic ev" and sp: "1 \<le> SpecSize (spec c)"
    and dM: "distinct (map fst (members c))" and dR: "distinct (map fst running)"
  shows "fst (reconcileMembers ev running c) \<noteq> Some PanicEmpty"
proof (cases "list_all (\<lambda>(n, m). removePod ev (Name m) True = None) (Diff running (members c))")
  case False
  from reconcileMembers_prune_fails[OF False] obtain j where
    "reconcileMembers ev running c =
             (removePod ev (Name (snd (Diff running (members c) ! j))) True,
              c\<lparr>calls := calls c @ pruneCalls (take (Suc j) (Diff running (members c)))\<rparr>)"
    by blast
  with ne show ?thesis by (simp add: noEmptyPanic_def)
next
  case True
  let ?M = "members c"
  let ?U = "Diff running ?M"
  let ?L = "Diff running ?U"
  let ?c1 = "c\<lparr>calls := calls c @ pruneCalls ?U\<rparr>"
  note red = reconcileMembers_pruned[OF True]
  consider (same) "Size ?L = Size ?M"
    | (lost) "Size ?L \<noteq> Size ?M" "Size ?L < Size ?M div 2 + 1"
    | (dead) "Size ?L \<noteq> Size ?M" "\<not> Size ?L < Size ?M div 2 + 1" by blast
  then show ?thesis
  proof cases
    case same
    with red resize_no_empty_panic[OF ne, of ?c1] sp show ?thesis by (simp add: Let_def)
  next
    case lost
    with red show ?thesis by (simp add: Let_def)
  next
    case dead
    from dead_member_exists[OF dM dR dead(1)] obtain m where
      "PickOne (Diff ?M ?L) = Inr m" using PickOne_nonempty by blast
    with dead red replaceDeadMember_no_empty_panic[OF ne, of m ?c1] show ?thesis
      by (simp add: Let_def)
  qed
qed

text \<open>
  C9. \<open>PickOne\<close> panics only on an empty member set, and that panic is out of
  reach of the engine. Where \<open>reconcileMembers\<close> calls it, its argument
  \<open>members.Diff(L)\<close> is not empty, because the keys of \<open>L\<close> are keys of the
  members and \<open>L.Size() != members.Size()\<close>: the pass goes on to replace the
  member picked. Where \<open>removeOneMember\<close> calls it, the members are not empty,
  because \<open>members.Size() > spec.Size\<close> and \<open>spec.Size >= 1\<close>: the removal
  goes on with the member picked. Hence, for member sets with distinct keys and
  \<open>spec.Size >= 1\<close>, neither \<open>reconcileMembers\<close> nor \<open>resize\<close> ends in
  \<open>panic("empty")\<close>.
\<close>

theorem pickone_guarded:
  "(\<exists>e. PickOne ms = Inl e) = (ms = [])
   \<and> (distinct (map fst (members c)) \<and> distinct (map fst running)
        \<and> Size (Diff running (Diff running (members c))) \<noteq> Size (members c)
      \<longrightarrow> (\<exists>m. PickOne (Diff (members c) (Diff running (Diff running (members c)))) = Inr m))
   \<and> (distinct (map fst (members c)) \<and> distinct (map fst running)
        \<and> list_all (\<lambda>(n, m). removePod ev (Name m) True = None) (Diff running (members c))
        \<and> Size (Diff running (Diff running (members c))) \<noteq> Size (members c)
        \<and> \<not> Size (Diff running (Diff running (members c))) < Size (members c) div 2 + 1
      \<longrightarrow> (\<exists>m. PickOne (Diff (members c) (Diff running (Diff running (members c)))) = Inr m
             \<and> reconcileMembers ev running c =
                 replaceDeadMember ev m
                   (c\<lparr>calls := calls c @ pruneCalls (Diff running (members c))\<rparr>)))
   \<and> (SpecSize (spec c) < Size (members c) \<and> 1 \<le> SpecSize (spec c)
      \<longrightarrow> (\<exists>m. PickOne (members c) = Inr m
             \<and> removeOneMember ev c =
                 removeMember ev m True
                   (record_call (SetScalingDownCondition (Size (members c)) (SpecSize (spec c))) c)))
   \<and> (distinct (map fst (members c)) \<and> distinct (map fst running)
        \<and> 1 \<le> SpecSize (spec c) \<and> noEmptyPanic ev
      \<longrightarrow> fst (reconcileMembers ev running c) \<noteq> Some PanicEmpty
          \<and> fst (resize ev c) \<noteq> Some PanicEmpty)"
proof -
  let ?M = "members c"
  let ?L = "Diff running (Diff running ?M)"
  have a: "(\<exists>e. PickOne ms = Inl e) = (ms = [])" by (simp add: PickOne_Inl)
  have b: "\<exists>m. PickOne (Diff ?M ?L) = Inr m"
    if "distinct (map fst ?M) \<and> distinct (map fst running) \<and> Size ?L \<noteq> Size ?M"
  proof -
    from that have "Diff ?M ?L \<noteq> []" by (simp add: dead_member_exists)
    then show ?thesis by (rule PickOne_nonempty)
  qed
  have c: "\<exists>m. PickOne (Diff ?M ?L) = Inr m
             \<and> reconcileMembers ev running c =
                 replaceDeadMember ev m (c\<lparr>calls := calls c @ pruneCalls (Diff running ?M)\<rparr>)"
    if h: "distinct (map fst ?M) \<and> distinct (map fst running)
        \<and> list_all (\<lambda>(n, m). removePod ev (Name m) True = None) (Diff running ?M)
        \<and> Size ?L \<noteq> Size ?M \<and> \<not> Size ?L < Size ?M div 2 + 1"
  proof -
    from h b obtain m where m: "PickOne (Diff ?M ?L) = Inr m" by blast
    from h have ok: "list_all (\<lambda>(n, m). removePod ev (Name m) True = None) (Diff running ?M)"
      by simp
    from reconcileMembers_pruned[OF ok] h m
    have "reconcileMembers ev running c =
        replaceDeadMember ev m (c\<lparr>calls := calls c @ pruneCalls (Diff running ?M)\<rparr>)"
      by (simp add: Let_def)
    with m show ?thesis by blast
  qed
  have d: "\<exists>m. PickOne ?M = Inr m
             \<and> removeOneMember ev c =
                 removeMember ev m True
                   (record_call (SetScalingDownCondition (Size ?M) (SpecSize (spec c))) c)"
    if "SpecSize (spec c) < Size ?M \<and> 1 \<le> SpecSize (spec c)"
  proof -
    from that have "?M \<noteq> []" by (auto simp: Size_def)
    then obtain m where "PickOne ?M = Inr m" using PickOne_nonempty by blast
    then show ?thesis by (simp add: removeOneMember_def Let_def record_call_def)
  qed
  have e: "fst (reconcileMembers ev running c) \<noteq> Some PanicEmpty
          \<and> fst (resize ev c) \<noteq> Some PanicEmpty"
    if "distinct (map fst ?M) \<and> distinct (map fst running)
        \<and> 1 \<le> SpecSize (spec c) \<and> noEmptyPanic ev"
    using that reconcileMembers_no_empty_panic[of ev c running] resize_no_empty_panic[of ev c]
    by simp
  from a b c d e show ?thesis by blast
qed

theorem pickone_guarded_witness:
  "PickOne [] = Inl PanicEmpty
   \<and> distinct (map fst (members (exCluster [''c-1'', ''c-2'', ''c-3''] 1)))
   \<and> distinct (map fst (exMembers [''c-1'', ''c-2'']))
   \<and> list_all (\<lambda>(n, m). removePod (exEnv []) (Name m) True = None)
        (Diff (exMembers [''c-1'', ''c-2'']) (members (exCluster [''c-1'', ''c-2'', ''c-3''] 1)))
   \<and> Size (Diff (exMembers [''c-1'', ''c-2''])
        (Diff (exMembers [''c-1'', ''c-2'']) (members (exCluster [''c-1'', ''c-2'', ''c-3''] 1))))
       \<noteq> Size (members (exCluster [''c-1'', ''c-2'', ''c-3''] 1))
   \<and> \<not> Size (Diff (exMembers [''c-1'', ''c-2''])
        (Diff (exMembers [''c-1'', ''c-2'']) (members (exCluster [''c-1'', ''c-2'', ''c-3''] 1))))
       < Size (members (exCluster [''c-1'', ''c-2'', ''c-3''] 1)) div 2 + 1
   \<and> SpecSize (spec (exCluster [''c-1'', ''c-2'', ''c-3''] 1))
       < Size (members (exCluster [''c-1'', ''c-2'', ''c-3''] 1))
   \<and> 1 \<le> SpecSize (spec (exCluster [''c-1'', ''c-2'', ''c-3''] 1))
   \<and> noEmptyPanic (exEnv [])
   \<and> (\<exists>m. PickOne (Diff (members (exCluster [''c-1'', ''c-2'', ''c-3''] 1))
              (Diff (exMembers [''c-1'', ''c-2''])
                 (Diff (exMembers [''c-1'', ''c-2''])
                    (members (exCluster [''c-1'', ''c-2'', ''c-3''] 1))))) = Inr m
          \<and> reconcileMembers (exEnv []) (exMembers [''c-1'', ''c-2''])
                (exCluster [''c-1'', ''c-2'', ''c-3''] 1)
              = replaceDeadMember (exEnv []) m (exCluster [''c-1'', ''c-2'', ''c-3''] 1))
   \<and> (\<exists>m. PickOne (members (exCluster [''c-1'', ''c-2'', ''c-3''] 1)) = Inr m)
   \<and> fst (reconcileMembers (exEnv []) (exMembers [''c-1'', ''c-2''])
          (exCluster [''c-1'', ''c-2'', ''c-3''] 1)) \<noteq> Some PanicEmpty
   \<and> fst (resize (exEnv []) (exCluster [''c-1'', ''c-2'', ''c-3''] 1)) \<noteq> Some PanicEmpty"
proof -
  let ?c = "exCluster [''c-1'', ''c-2'', ''c-3''] 1"
  let ?r = "exMembers [''c-1'', ''c-2'']"
  have e: "PickOne [] = Inl PanicEmpty" by (simp add: PickOne_def)
  have h: "distinct (map fst (members ?c))" "distinct (map fst ?r)"
    "list_all (\<lambda>(n, m). removePod (exEnv []) (Name m) True = None) (Diff ?r (members ?c))"
    "Size (Diff ?r (Diff ?r (members ?c))) \<noteq> Size (members ?c)"
    "\<not> Size (Diff ?r (Diff ?r (members ?c))) < Size (members ?c) div 2 + 1"
    "SpecSize (spec ?c) < Size (members ?c)" "1 \<le> SpecSize (spec ?c)"
    by code_simp+
  have n: "noEmptyPanic (exEnv [])" by (simp add: noEmptyPanic_def exEnv_def)
  have u: "Diff ?r (members ?c) = []" by code_simp
  have v: "?c\<lparr>calls := calls ?c @ pruneCalls []\<rparr> = ?c"
    by (simp add: exCluster_def pruneCalls_def)
  note g = pickone_guarded [of "[]" ?c ?r "exEnv []"]
  from g h have "\<exists>m. PickOne (Diff (members ?c) (Diff ?r (Diff ?r (members ?c)))) = Inr m
          \<and> reconcileMembers (exEnv []) ?r ?c
              = replaceDeadMember (exEnv []) m
                  (?c\<lparr>calls := calls ?c @ pruneCalls (Diff ?r (members ?c))\<rparr>)"
    by blast
  then have a: "\<exists>m. PickOne (Diff (members ?c) (Diff ?r (Diff ?r (members ?c)))) = Inr m
          \<and> reconcileMembers (exEnv []) ?r ?c = replaceDeadMember (exEnv []) m ?c"
    by (simp only: u v)
  from g h have b: "\<exists>m. PickOne (members ?c) = Inr m" by blast
  from g h n have c: "fst (reconcileMembers (exEnv []) ?r ?c) \<noteq> Some PanicEmpty
      \<and> fst (resize (exEnv []) ?c) \<noteq> Some PanicEmpty" by blast
  from e h n a b c show ?thesis by (intro conjI) (assumption | (elim conjE, assumption))+
qed

section \<open>The orchestrator\<close>

lemma reconcile_mismatch:
  assumes "IsEqual (podsToMemberSet pods) (members c)"
    and "ClientHostList (members c) = Inr hosts"
    and "GetClusterConfig ev hosts = Inr zk"
    and "ClusterConfig (members c) = Inr cfg"
    and "int (length zk) \<noteq> Size (members c) \<or> zk \<noteq> cfg"
  shows "reconcile ev pods c =
     ((case ReconfigureCluster ev hosts cfg of Inl err \<Rightarrow> Some err | Inr config \<Rightarrow> None),
      c\<lparr>calls := calls c @ [CallGetClusterConfig hosts, CallReconfigureCluster hosts cfg],
        statusSize := Size (members c)\<rparr>)"
  using assms
  by (auto simp: reconcile_def reconcileBody_def Let_def record_call_def split: sum.splits)

lemma reconcile_match:
  assumes "IsEqual (podsToMemberSet pods) (members c)"
    and "ClientHostList (members c) = Inr hosts"
    and "GetClusterConfig ev hosts = Inr zk"
    and "ClusterConfig (members c) = Inr cfg"
    and "int (length zk) = Size (members c) \<and> zk = cfg"
  shows "reconcile ev pods c =
     (case reconcileScaleUpgrade ev pods (podsToMemberSet pods)
             (record_call (CallGetClusterConfig hosts) c) of
        (r, c') \<Rightarrow> (r, c'\<lparr>statusSize := Size (members c')\<rparr>))"
  using assms
  by (auto simp: reconcile_def reconcileBody_def Let_def record_call_def split: sum.splits)

lemma reconcile_get_fails:
  assumes "IsEqual (podsToMemberSet pods) (members c)"
    and "ClientHostList (members c) = Inr hosts"
    and "GetClusterConfig ev hosts = Inl err"
  shows "reconcile ev pods c =
     (Some err, c\<lparr>calls := calls c @ [CallGetClusterConfig hosts],
                  statusSize := Size (members c)\<rparr>)"
  using assms
  by (auto simp: reconcile_def reconcileBody_def Let_def record_call_def split: sum.splits)

lemma removeMember_scaling:
  assumes "ClientHostList (Remove (members c) (Name m)) = Inr hosts"
    and "ClusterConfig (Remove (members c) (Name m)) = Inr cfg"
  shows "removeMember ev m True c =
     ((case removePod ev (Name m) True of
         None \<Rightarrow> None
       | Some err \<Rightarrow> Some (if isPanic err then err else RemoveMemberFailed (Name m) err)),
      c\<lparr>members := Remove (members c) (Name m),
        calls := calls c @ [CallReconfigureCluster hosts cfg, MemberRemoveEvent (Name m),
                            CallRemovePod (Name m) True]\<rparr>)"
  using assms
  by (auto simp: removeMember_def Let_def record_call_def split: sum.splits option.splits)


lemma GetClusterConfig_fails:
  "(GetClusterConfig ev hosts = Inl err) =
     (zkConnect ev hosts = Some err \<or> (zkConnect ev hosts = None \<and> zkGet ev hosts = Inl err))"
  by (auto simp: GetClusterConfig_def split: option.splits sum.splits)

lemma ReconfigureCluster_fails:
  "(ReconfigureCluster ev hosts cfg = Inl err) =
     (zkConnect ev hosts = Some err
      \<or> (zkConnect ev hosts = None \<and> zkReconfig ev hosts (Join cfg '','') = Inl err))"
  by (auto simp: ReconfigureCluster_def split: option.splits sum.splits)

subsection \<open>The check of the ensemble's configuration\<close>

text \<open>
  C3, as the code has it. In a pass whose running pods are the members name for
  name (and whose calls for the hosts and the two configurations return): when the
  live configuration differs from the members' the orchestrator pushes
  \<open>ReconfigureCluster\<close> and the pass ends there, with the result of that call and
  nothing but the two calls to the ensemble made; when the live configuration is the
  members' already, the pass does not end: it goes on to the scaling and upgrade
  logic, and runs \<open>reconcileMembers\<close> whenever \<open>members.Size() != spec.Size\<close>.
\<close>

theorem config_check_pass:
  assumes "IsEqual (podsToMemberSet pods) (members c)"
    and "ClientHostList (members c) = Inr hosts"
    and "GetClusterConfig ev hosts = Inr zk"
    and "ClusterConfig (members c) = Inr cfg"
  shows "(int (length zk) \<noteq> Size (members c) \<or> zk \<noteq> cfg \<longrightarrow>
            reconcile ev pods c =
              ((case ReconfigureCluster ev hosts cfg of Inl err \<Rightarrow> Some err | Inr config \<Rightarrow> None),
               c\<lparr>calls := calls c @ [CallGetClusterConfig hosts, CallReconfigureCluster hosts cfg],
                 statusSize := Size (members c)\<rparr>))
     \<and> (int (length zk) = Size (members c) \<and> zk = cfg \<longrightarrow>
            reconcile ev pods c =
              (case reconcileScaleUpgrade ev pods (podsToMemberSet pods)
                      (record_call (CallGetClusterConfig hosts) c) of
                 (r, c') \<Rightarrow> (r, c'\<lparr>statusSize := Size (members c')\<rparr>)))
     \<and> (int (length zk) = Size (members c) \<and> zk = cfg
          \<and> Size (members c) \<noteq> SpecSize (spec c) \<longrightarrow>
            reconcile ev pods c =
              (case reconcileMembers ev (podsToMemberSet pods)
                      (record_call (CallGetClusterConfig hosts) c) of
                 (r, c') \<Rightarrow> (r, c'\<lparr>statusSize := Size (members c')\<rparr>)))"
proof (intro conjI impI)
  assume "int (length zk) \<noteq> Size (members c) \<or> zk \<noteq> cfg"
  with assms show "reconcile ev pods c =
              ((case ReconfigureCluster ev hosts cfg of Inl err \<Rightarrow> Some err | Inr config \<Rightarrow> None),
               c\<lparr>calls := calls c @ [CallGetClusterConfig hosts, CallReconfigureCluster hosts cfg],
                 statusSize := Size (members c)\<rparr>)"
    by (rule reconcile_mismatch)
next
  assume "int (length zk) = Size (members c) \<and> zk = cfg"
  with assms show "reconcile ev pods c =
              (case reconcileScaleUpgrade ev pods (podsToMemberSet pods)
                      (record_call (CallGetClusterConfig hosts) c) of
                 (r, c') \<Rightarrow> (r, c'\<lparr>statusSize := Size (members c')\<rparr>))"
    by (rule reconcile_match)
next
  assume m: "int (length zk) = Size (members c) \<and> zk = cfg
          \<and> Size (members c) \<noteq> SpecSize (spec c)"
  then have "int (length zk) = Size (members c) \<and> zk = cfg" by blast
  from reconcile_match[OF assms this] m
  show "reconcile ev pods c =
              (case reconcileMembers ev (podsToMemberSet pods)
                      (record_call (CallGetClusterConfig hosts) c) of
                 (r, c') \<Rightarrow> (r, c'\<lparr>statusSize := Size (members c')\<rparr>))"
    by (simp add: reconcileScaleUpgrade_def record_call_def)
qed

theorem config_check_pass_witness:
  "IsEqual (podsToMemberSet (exPods [''c-1'', ''c-2'', ''c-3'']))
     (members (exCluster [''c-1'', ''c-2'', ''c-3''] 3))
   \<and> ClientHostList (members (exCluster [''c-1'', ''c-2'', ''c-3''] 3))
       = Inr [exHost ''c-1'', exHost ''c-2'', exHost ''c-3'']
   \<and> GetClusterConfig (exEnv (exData [exLine ''1'' ''c-1'', exLine ''2'' ''c-2'']))
         [exHost ''c-1'', exHost ''c-2'', exHost ''c-3'']
       = Inr [exLine ''1'' ''c-1'', exLine ''2'' ''c-2'']
   \<and> ClusterConfig (members (exCluster [''c-1'', ''c-2'', ''c-3''] 3))
       = Inr [exLine ''1'' ''c-1'', exLine ''2'' ''c-2'', exLine ''3'' ''c-3'']
   \<and> reconcile (exEnv (exData [exLine ''1'' ''c-1'', exLine ''2'' ''c-2'']))
         (exPods [''c-1'', ''c-2'', ''c-3'']) (exCluster [''c-1'', ''c-2'', ''c-3''] 3)
       = (None,
          (exCluster [''c-1'', ''c-2'', ''c-3''] 3)\<lparr>calls :=
             [CallGetClusterConfig [exHost ''c-1'', exHost ''c-2'', exHost ''c-3''],
              CallReconfigureCluster [exHost ''c-1'', exHost ''c-2'', exHost ''c-3'']
                [exLine ''1'' ''c-1'', exLine ''2'' ''c-2'', exLine ''3'' ''c-3'']],
             statusSize := 3\<rparr>)"
proof -
  let ?c = "exCluster [''c-1'', ''c-2'', ''c-3''] 3"
  let ?ev = "exEnv (exData [exLine ''1'' ''c-1'', exLine ''2'' ''c-2''])"
  let ?pods = "exPods [''c-1'', ''c-2'', ''c-3'']"
  let ?hosts = "[exHost ''c-1'', exHost ''c-2'', exHost ''c-3'']"
  let ?zk = "[exLine ''1'' ''c-1'', exLine ''2'' ''c-2'']"
  let ?cfg = "[exLine ''1'' ''c-1'', exLine ''2'' ''c-2'', exLine ''3'' ''c-3'']"
  have h1: "IsEqual (podsToMemberSet ?pods) (members ?c)" by code_simp
  have h2: "ClientHostList (members ?c) = Inr ?hosts" by code_simp
  have h3: "GetClusterConfig ?ev ?hosts = Inr ?zk" by code_simp
  have h4: "ClusterConfig (members ?c) = Inr ?cfg" by code_simp
  have h5: "int (length ?zk) \<noteq> Size (members ?c) \<or> ?zk \<noteq> ?cfg" by simp
  have r: "ReconfigureCluster ?ev ?hosts ?cfg = Inr ?zk" by code_simp
  have s: "Size (members ?c) = 3" by code_simp
  from config_check_pass [OF h1 h2 h3 h4] h5 r s
  have "reconcile ?ev ?pods ?c =
      (None, ?c\<lparr>calls := calls ?c @ [CallGetClusterConfig ?hosts, CallReconfigureCluster ?hosts ?cfg],
                statusSize := 3\<rparr>)"
    by simp
  moreover have "calls ?c = []" by (simp add: exCluster_def)
  ultimately have "reconcile ?ev ?pods ?c =
      (None, ?c\<lparr>calls := [CallGetClusterConfig ?hosts, CallReconfigureCluster ?hosts ?cfg],
                statusSize := 3\<rparr>)"
    by simp
  with h1 h2 h3 h4 show ?thesis by blast
qed

text \<open>
  C3 as stated fails in the case where nothing is to be reconfigured: with the three
  members \<open>c-1\<close>, \<open>c-2\<close>, \<open>c-3\<close> running, the live configuration equal to the
  members' and \<open>spec.Size = 5\<close>, the pass goes on to scale: it sets the scaling
  condition and creates the pod of a fourth member.
\<close>

theorem config_check_noop_scales:
  "IsEqual (podsToMemberSet (exPods [''c-1'', ''c-2'', ''c-3'']))
     (members (exCluster [''c-1'', ''c-2'', ''c-3''] 5))
   \<and> GetClusterConfig
         (exEnv (exData [exLine ''1'' ''c-1'', exLine ''2'' ''c-2'', exLine ''3'' ''c-3'']))
         [exHost ''c-1'', exHost ''c-2'', exHost ''c-3'']
       = ClusterConfig (members (exCluster [''c-1'', ''c-2'', ''c-3''] 5))
   \<and> reconcile (exEnv (exData [exLine ''1'' ''c-1'', exLine ''2'' ''c-2'', exLine ''3'' ''c-3'']))
         (exPods [''c-1'', ''c-2'', ''c-3'']) (exCluster [''c-1'', ''c-2'', ''c-3''] 5)
       = (None,
          (exCluster [''c-1'', ''c-2'', ''c-3'', ''c-4''] 5)\<lparr>calls :=
             [CallGetClusterConfig [exHost ''c-1'', exHost ''c-2'', exHost ''c-3''],
              SetScalingUpCondition 3 5,
              CallCreatePod [exLine ''1'' ''c-1'', exLine ''2'' ''c-2'', exLine ''3'' ''c-3'']
                (exMember ''c-4'') ''new'',
              MemberAddEvent ''c-4''],
             statusSize := 4\<rparr>)"
  by code_simp

subsection \<open>Errors of the ensemble client\<close>

text \<open>
  C4, as the code has it. \<open>GetClusterConfig\<close> and \<open>ReconfigureCluster\<close> fail
  exactly when the connection or the request fails. In the configuration check of
  \<open>reconcile\<close> such a failure ends the pass at once with that error: the members
  are unchanged and no call follows the failed one. In a scale-down removal
  (\<open>removeMember\<close> with \<open>isScalingEvent\<close>) the member leaves the member set, then
  the reconfiguration is issued, and only then the pod is deleted; the outcome of the
  reconfiguration is only logged, and the result of the removal is that of the
  deletion of the pod.
\<close>

theorem ensemble_failure:
  "(IsEqual (podsToMemberSet pods) (members c) \<and> ClientHostList (members c) = Inr hosts
      \<and> GetClusterConfig ev hosts = Inl err
    \<longrightarrow> reconcile ev pods c =
          (Some err, c\<lparr>calls := calls c @ [CallGetClusterConfig hosts],
                       statusSize := Size (members c)\<rparr>))
   \<and> (IsEqual (podsToMemberSet pods) (members c) \<and> ClientHostList (members c) = Inr hosts
      \<and> GetClusterConfig ev hosts = Inr zk \<and> ClusterConfig (members c) = Inr cfg
      \<and> (int (length zk) \<noteq> Size (members c) \<or> zk \<noteq> cfg)
      \<and> ReconfigureCluster ev hosts cfg = Inl err
    \<longrightarrow> reconcile ev pods c =
          (Some err,
           c\<lparr>calls := calls c @ [CallGetClusterConfig hosts, CallReconfigureCluster hosts cfg],
             statusSize := Size (members c)\<rparr>))
   \<and> (ClientHostList (Remove (members c) (Name m)) = Inr hosts'
      \<and> ClusterConfig (Remove (members c) (Name m)) = Inr cfg'
    \<longrightarrow> removeMember ev m True c =
          ((case removePod ev (Name m) True of
              None \<Rightarrow> None
            | Some e \<Rightarrow> Some (if isPanic e then e else RemoveMemberFailed (Name m) e)),
           c\<lparr>members := Remove (members c) (Name m),
             calls := calls c @ [CallReconfigureCluster hosts' cfg', MemberRemoveEvent (Name m),
                                 CallRemovePod (Name m) True]\<rparr>))
   \<and> (GetClusterConfig ev hosts = Inl err) =
       (zkConnect ev hosts = Some err \<or> (zkConnect ev hosts = None \<and> zkGet ev hosts = Inl err))
   \<and> (ReconfigureCluster ev hosts cfg = Inl err) =
       (zkConnect ev hosts = Some err
        \<or> (zkConnect ev hosts = None \<and> zkReconfig ev hosts (Join cfg '','') = Inl err))"
proof (intro conjI impI)
  assume "IsEqual (podsToMemberSet pods) (members c) \<and> ClientHostList (members c) = Inr hosts
      \<and> GetClusterConfig ev hosts = Inl err"
  then show "reconcile ev pods c =
          (Some err, c\<lparr>calls := calls c @ [CallGetClusterConfig hosts],
                       statusSize := Size (members c)\<rparr>)"
    by (simp add: reconcile_get_fails)
next
  assume h: "IsEqual (podsToMemberSet pods) (members c) \<and> ClientHostList (members c) = Inr hosts
      \<and> GetClusterConfig ev hosts = Inr zk \<and> ClusterConfig (members c) = Inr cfg
      \<and> (int (length zk) \<noteq> Size (members c) \<or> zk \<noteq> cfg)
      \<and> ReconfigureCluster ev hosts cfg = Inl err"
  then have "reconcile ev pods c =
     ((case ReconfigureCluster ev hosts cfg of Inl err \<Rightarrow> Some err | Inr config \<Rightarrow> None),
      c\<lparr>calls := calls c @ [CallGetClusterConfig hosts, CallReconfigureCluster hosts cfg],
        statusSize := Size (members c)\<rparr>)"
    using reconcile_mismatch [of pods c hosts ev zk cfg] by blast
  with h show "reconcile ev pods c =
          (Some err,
           c\<lparr>calls := calls c @ [CallGetClusterConfig hosts, CallReconfigureCluster hosts cfg],
             statusSize := Size (members c)\<rparr>)"
    by simp
next
  assume "ClientHostList (Remove (members c) (Name m)) = Inr hosts'
      \<and> ClusterConfig (Remove (members c) (Name m)) = Inr cfg'"
  then show "removeMember ev m True c =
          ((case removePod ev (Name m) True of
              None \<Rightarrow> None
            | Some e \<Rightarrow> Some (if isPanic e then e else RemoveMemberFailed (Name m) e)),
           c\<lparr>members := Remove (members c) (Name m),
             calls := calls c @ [CallReconfigureCluster hosts' cfg', MemberRemoveEvent (Name m),
                                 CallRemovePod (Name m) True]\<rparr>)"
    by (simp add: removeMember_scaling)
next
  show "(GetClusterConfig ev hosts = Inl err) =
       (zkConnect ev hosts = Some err \<or> (zkConnect ev hosts = None \<and> zkGet ev hosts = Inl err))"
    by (rule GetClusterConfig_fails)
next
  show "(ReconfigureCluster ev hosts cfg = Inl err) =
       (zkConnect ev hosts = Some err
        \<or> (zkConnect ev hosts = None \<and> zkReconfig ev hosts (Join cfg '','') = Inl err))"
    by (rule ReconfigureCluster_fails)
qed

theorem ensemble_failure_witness:
  "IsEqual (podsToMemberSet (exPods [''c-1'', ''c-2'']))
     (members (exCluster [''c-1'', ''c-2''] 2))
   \<and> ClientHostList (members (exCluster [''c-1'', ''c-2''] 2))
       = Inr [exHost ''c-1'', exHost ''c-2'']
   \<and> GetClusterConfig exEnvConnectFails [exHost ''c-1'', exHost ''c-2'']
       = Inl (ZkError ''connect'')
   \<and> reconcile exEnvConnectFails (exPods [''c-1'', ''c-2'']) (exCluster [''c-1'', ''c-2''] 2)
       = (Some (ZkError ''connect''),
          (exCluster [''c-1'', ''c-2''] 2)\<lparr>calls :=
             [CallGetClusterConfig [exHost ''c-1'', exHost ''c-2'']], statusSize := 2\<rparr>)
   \<and> removeMember (exEnv []) (exMember ''c-1'') True (exCluster [''c-1'', ''c-2''] 1)
       = (None,
          (exCluster [''c-2''] 1)\<lparr>calls :=
             [CallReconfigureCluster [exHost ''c-2''] [exLine ''2'' ''c-2''],
              MemberRemoveEvent ''c-1'', CallRemovePod ''c-1'' True]\<rparr>)"
proof -
  let ?c = "exCluster [''c-1'', ''c-2''] 2"
  let ?d = "exCluster [''c-1'', ''c-2''] 1"
  let ?pods = "exPods [''c-1'', ''c-2'']"
  let ?hosts = "[exHost ''c-1'', exHost ''c-2'']"
  have h1: "IsEqual (podsToMemberSet ?pods) (members ?c)" by code_simp
  have h2: "ClientHostList (members ?c) = Inr ?hosts" by code_simp
  have h3: "GetClusterConfig exEnvConnectFails ?hosts = Inl (ZkError ''connect'')" by code_simp
  have v: "c\<lparr>calls := calls ?c @ [CallGetClusterConfig ?hosts], statusSize := Size (members ?c)\<rparr>
      = c\<lparr>calls := [CallGetClusterConfig ?hosts], statusSize := 2\<rparr>" for c
    by (simp add: exCluster_def exMembers_def Size_def)
  from ensemble_failure
    [of ?pods ?c ?hosts exEnvConnectFails "ZkError ''connect''" "[]" "[]"
        "exMember ''c-1''" "[exHost ''c-2'']" "[exLine ''2'' ''c-2'']"]
    h1 h2 h3
  have a: "reconcile exEnvConnectFails ?pods ?c =
      (Some (ZkError ''connect''),
       ?c\<lparr>calls := [CallGetClusterConfig ?hosts], statusSize := 2\<rparr>)"
    by (simp only: v) blast
  have b: "removeMember (exEnv []) (exMember ''c-1'') True ?d =
      (None, (exCluster [''c-2''] 1)\<lparr>calls :=
             [CallReconfigureCluster [exHost ''c-2''] [exLine ''2'' ''c-2''],
              MemberRemoveEvent ''c-1'', CallRemovePod ''c-1'' True]\<rparr>)"
    by code_simp
  from h1 h2 h3 a b show ?thesis by blast
qed

text \<open>
  C4 as stated fails for the removal: with two members running, \<open>spec.Size = 1\<close>
  and an ensemble that answers the reconfiguration with an error, the pass deletes the
  pod of \<open>c-1\<close> all the same and returns no error.
\<close>

theorem scale_down_ignores_reconfigure_error:
  "ReconfigureCluster
       (exEnvReconfigFails (exData [exLine ''1'' ''c-1'', exLine ''2'' ''c-2'']))
       [exHost ''c-2''] [exLine ''2'' ''c-2'']
     = Inl (ZkError ''bad version'')
   \<and> reconcile (exEnvReconfigFails (exData [exLine ''1'' ''c-1'', exLine ''2'' ''c-2'']))
         (exPods [''c-1'', ''c-2'']) (exCluster [''c-1'', ''c-2''] 1)
       = (None,
          (exCluster [''c-2''] 1)\<lparr>calls :=
             [CallGetClusterConfig [exHost ''c-1'', exHost ''c-2''],
              SetScalingDownCondition 2 1,
              CallReconfigureCluster [exHost ''c-2''] [exLine ''2'' ''c-2''],
              MemberRemoveEvent ''c-1'',
              CallRemovePod ''c-1'' True],
             statusSize := 1\<rparr>)"
  by code_simp

section \<open>Serialization of the member set\<close>

lemma forEach_Inr:
  "(forEach f ms = Inr ss) =
     (list_all (\<lambda>(n, m). \<not> isl (f m)) ms \<and> ss = map (\<lambda>(n, m). projr (f m)) ms)"
proof (induction ms arbitrary: ss)
  case Nil
  show ?case by auto
next
  case (Cons a ms)
  obtain n m where a: "a = (n, m)" by (cases a)
  show ?case
    using Cons.IH by (cases "f m"; cases "forEach f ms") (auto simp: a)
qed

lemma forEach_mset:
  assumes "mset A = mset B" and "forEach f A = Inr xs"
  shows "\<exists>ys. forEach f B = Inr ys \<and> mset ys = mset xs"
proof -
  let ?g = "\<lambda>(n, m). projr (f m)"
  from assms(2) have ok: "list_all (\<lambda>(n, m). \<not> isl (f m)) A" and xs: "xs = map ?g A"
    by (simp_all add: forEach_Inr)
  from assms(1) have "set A = set B" by (rule mset_eq_setD)
  with ok have "list_all (\<lambda>(n, m). \<not> isl (f m)) B" by (simp add: list_all_iff)
  then have "forEach f B = Inr (map ?g B)" by (simp add: forEach_Inr)
  moreover have "mset (map ?g B) = mset xs"
    using assms(1) xs by (metis mset_map)
  ultimately show ?thesis by blast
qed

lemma ClusterConfig_lines:
  assumes "ClusterConfig ms = Inr ls" and "l \<in> set ls"
  shows "\<exists>(n, m) \<in> set ms. serverLine ''participant'' m = Inr l"
proof -
  from assms(1) obtain xs where xs: "forEach (serverLine ''participant'') ms = Inr xs" "ls = sort xs"
    by (auto simp: ClusterConfig_def split: sum.splits)
  then have ok: "list_all (\<lambda>(n, m). \<not> isl (serverLine ''participant'' m)) ms"
    and eq: "xs = map (\<lambda>(n, m). projr (serverLine ''participant'' m)) ms"
    by (simp_all add: forEach_Inr)
  from assms(2) xs have "l \<in> set xs" by simp
  with eq obtain n m where nm: "(n, m) \<in> set ms" "l = projr (serverLine ''participant'' m)"
    by auto
  with ok have "\<not> isl (serverLine ''participant'' m)" by (auto simp: list_all_iff)
  with nm have "serverLine ''participant'' m = Inr l"
    by (cases "serverLine ''participant'' m") auto
  with nm show ?thesis by blast
qed

subsection \<open>Order\<close>

text \<open>
  C6, as the code has it. \<open>ClusterConfig\<close> sorts its lines: whenever it returns,
  its output is sorted and is the same for any two member sets holding the same
  members, whatever the order in which the maps are iterated.
  \<open>ClientHostList\<close> does not sort: for two such member sets it returns the same
  hosts, but in the order of the iteration, so that the two lists agree as multisets
  and after sorting only.
\<close>

theorem serialization_order:
  assumes "mset A = mset B"
  shows "(ClusterConfig A = Inr xs \<longrightarrow> sorted xs \<and> ClusterConfig B = Inr xs)
     \<and> (ClientHostList A = Inr hs \<longrightarrow>
          (\<exists>hs'. ClientHostList B = Inr hs' \<and> mset hs' = mset hs \<and> sort hs' = sort hs))"
proof -
  have cc: "sorted xs \<and> ClusterConfig B = Inr xs" if c: "ClusterConfig A = Inr xs"
  proof -
    from c obtain ls where ls: "forEach (serverLine ''participant'') A = Inr ls"
      and xs: "xs = sort ls"
      by (auto simp: ClusterConfig_def split: sum.splits)
    from forEach_mset[OF assms ls] obtain ls' where
      ls': "forEach (serverLine ''participant'') B = Inr ls'" "mset ls' = mset ls" by blast
    have "sort ls' = sort ls"
      by (rule properties_for_sort) (simp_all add: ls'(2))
    with ls' xs show ?thesis
      by (simp add: ClusterConfig_def)
  qed
  have ch: "\<exists>hs'. ClientHostList B = Inr hs' \<and> mset hs' = mset hs \<and> sort hs' = sort hs"
    if "ClientHostList A = Inr hs"
  proof -
    from that have "forEach clientHost A = Inr hs" by (simp add: ClientHostList_def)
    from forEach_mset[OF assms this] obtain hs' where
      hs': "forEach clientHost B = Inr hs'" "mset hs' = mset hs" by blast
    have "sort hs' = sort hs"
      by (rule properties_for_sort) (simp_all add: hs'(2))
    with hs' show ?thesis
      by (auto simp: ClientHostList_def)
  qed
  from cc ch show ?thesis by blast
qed

theorem serialization_order_witness:
  "mset (exMembers [''c-2'', ''c-1'']) = mset (exMembers [''c-1'', ''c-2''])
   \<and> ClusterConfig (exMembers [''c-2'', ''c-1'']) = Inr [exLine ''1'' ''c-1'', exLine ''2'' ''c-2'']
   \<and> sorted [exLine ''1'' ''c-1'', exLine ''2'' ''c-2'']
   \<and> ClusterConfig (exMembers [''c-1'', ''c-2'']) = Inr [exLine ''1'' ''c-1'', exLine ''2'' ''c-2'']"
proof -
  have m: "mset (exMembers [''c-2'', ''c-1'']) = mset (exMembers [''c-1'', ''c-2''])"
    by (simp add: exMembers_def)
  have c: "ClusterConfig (exMembers [''c-2'', ''c-1'']) = Inr [exLine ''1'' ''c-1'', exLine ''2'' ''c-2'']"
    by code_simp
  from serialization_order [OF m, of "[exLine ''1'' ''c-1'', exLine ''2'' ''c-2'']" "[]"] c
  have "sorted [exLine ''1'' ''c-1'', exLine ''2'' ''c-2'']
      \<and> ClusterConfig (exMembers [''c-1'', ''c-2'']) = Inr [exLine ''1'' ''c-1'', exLine ''2'' ''c-2'']"
    by blast
  with m c show ?thesis by blast
qed

text \<open>
  C6 as stated fails for \<open>ClientHostList\<close>: for the members \<open>c-2\<close>, \<open>c-1\<close>
  iterated in this order its output is not sorted, and it differs from the output
  for the same members iterated in the other order.
\<close>

theorem client_hosts_unsorted:
  "ClientHostList (exMembers [''c-2'', ''c-1'']) = Inr [exHost ''c-2'', exHost ''c-1'']
   \<and> \<not> sorted [exHost ''c-2'', exHost ''c-1'']
   \<and> ClientHostList (exMembers [''c-1'', ''c-2'']) = Inr [exHost ''c-1'', exHost ''c-2'']
   \<and> ClientHostList (exMembers [''c-2'', ''c-1'']) \<noteq> ClientHostList (exMembers [''c-1'', ''c-2''])
   \<and> set (exMembers [''c-2'', ''c-1'']) = set (exMembers [''c-1'', ''c-2''])"
  by code_simp

subsection \<open>Cutting a server line\<close>

lemma Split_no_sep: "sep \<notin> set s \<Longrightarrow> Split s sep = [s]"
proof -
  assume "sep \<notin> set s"
  then have "dropWhile (\<lambda>x. x \<noteq> sep) s = []" by (auto simp: dropWhile_eq_Nil_conv)
  then show ?thesis by (subst Split.simps) (simp only: list.case)
qed

lemma Split_first: "sep \<notin> set a \<Longrightarrow> Split (a @ sep # b) sep = a # Split b sep"
proof -
  assume n: "sep \<notin> set a"
  then have "dropWhile (\<lambda>x. x \<noteq> sep) (a @ sep # b) = sep # b"
    by (simp add: dropWhile_append)
  moreover have "takeWhile (\<lambda>x. x \<noteq> sep) (a @ sep # b) = a"
    using n by (simp add: takeWhile_append)
  ultimately show ?thesis by (subst Split.simps) simp
qed

lemma hd_Split: "hd (Split s sep) = takeWhile (\<lambda>x. x \<noteq> sep) s"
proof (cases "dropWhile (\<lambda>x. x \<noteq> sep) s")
  case Nil
  then have "takeWhile (\<lambda>x. x \<noteq> sep) s = s"
    by (metis append_Nil2 takeWhile_dropWhile_id)
  with Nil show ?thesis by (subst Split.simps) (simp only: list.case list.sel)
next
  case (Cons x rest)
  then show ?thesis by (subst Split.simps) (simp only: list.case list.sel)
qed

lemma natString_digits: "set (natString n) \<subseteq> set ''0123456789''"
proof (induction n rule: natString.induct)
  case (1 n)
  have d: "''0123456789'' ! k \<in> set ''0123456789''" if "k < 10" for k
    using that by (intro nth_mem) simp
  show ?case
  proof (cases "n < 10")
    case True
    then show ?thesis using d[of n] by (subst natString.simps) simp
  next
    case False
    have "n mod 10 < 10" by simp
    from d[OF this] 1 False show ?thesis
      by (subst natString.simps) simp
  qed
qed

lemma Itoa_no_semicolon: "CHR '';'' \<notin> set (Itoa i)"
proof -
  have "CHR '';'' \<notin> set ''0123456789''" by simp
  then have "CHR '';'' \<notin> set (natString n)" for n
    using natString_digits[of n] by blast
  then show ?thesis by (simp add: Itoa_def)
qed

lemma clusterName_subset:
  "clusterNameFromMemberName mn = Inr cn \<Longrightarrow> set cn \<subseteq> set mn"
  by (auto simp: clusterNameFromMemberName_def Let_def split: if_splits dest: in_set_takeD)

lemma length_takeWhile_less: "x \<in> set xs \<Longrightarrow> length (takeWhile (\<lambda>y. y \<noteq> x) xs) < length xs"
  by (induction xs) auto

lemma clusterName_dash:
  "CHR ''-'' \<in> set mn \<Longrightarrow> \<exists>cn. clusterNameFromMemberName mn = Inr cn"
  using length_takeWhile_less [of "CHR ''-''" "rev mn"]
  by (simp add: clusterNameFromMemberName_def LastIndex_def Let_def)







lemma Split_nonempty: "Split s sep \<noteq> []"
  by (subst Split.simps) (simp split: list.splits)

lemma last_Split: "sep \<notin> set r \<Longrightarrow> last (Split (p @ sep # r) sep) = r"
proof (induction p rule: length_induct)
  case (1 p)
  show ?case
  proof (cases "sep \<in> set p")
    case False
    with 1 show ?thesis by (simp add: Split_first Split_no_sep)
  next
    case True
    then obtain p1 p2 where p: "p = p1 @ sep # p2" "sep \<notin> set p1"
      by (meson split_list_first)
    then have "length p2 < length p" by simp
    with 1 have "last (Split (p2 @ sep # r) sep) = r" by blast
    moreover have "Split (p @ sep # r) sep = p1 # Split (p2 @ sep # r) sep"
      using Split_first[OF p(2), of "p2 @ sep # r"] p(1) by simp
    ultimately show ?thesis by (simp add: Split_nonempty)
  qed
qed

lemma takeWhile_sep: "sep \<notin> set p \<Longrightarrow> takeWhile (\<lambda>x. x \<noteq> sep) (p @ sep # q) = p"
  by (simp add: takeWhile_append)

lemma serverLine_role:
  assumes a: "Addr m = Inr a" and na: "CHR '';'' \<notin> set a"
    and r1: "CHR '';'' \<notin> set role" and r2: "CHR '':'' \<notin> set role"
  shows "\<exists>l. serverLine role m = Inr l \<and> roleOfLine l = role"
proof -
  let ?p = "''server.'' @ Itoa (ID m) @ ''='' @ a @ '':2888:3888''"
  let ?post = "a @ '':2181''"
  have l: "serverLine role m = Inr ((?p @ CHR '':'' # role) @ CHR '';'' # ?post)"
    using a by (simp add: serverLine_def)
  have "CHR '';'' \<notin> set (?p @ CHR '':'' # role)"
    using na r1 Itoa_no_semicolon by auto
  then have "takeWhile (\<lambda>x. x \<noteq> CHR '';'') ((?p @ CHR '':'' # role) @ CHR '';'' # ?post)
      = ?p @ CHR '':'' # role"
    by (rule takeWhile_sep)
  then have "roleOfLine ((?p @ CHR '':'' # role) @ CHR '';'' # ?post)
      = last (Split (?p @ CHR '':'' # role) CHR '':'')"
    by (simp only: roleOfLine_def hd_Split)
  also have "\<dots> = role" using r2 by (rule last_Split)
  finally show ?thesis using l by blast
qed

lemma Addr_parts:
  "Addr m = Inr a \<Longrightarrow> set a \<subseteq> set (Name m) \<union> set (Namespace m) \<union> set ''.svc''"
proof -
  assume a: "Addr m = Inr a"
  then obtain cn where cn: "clusterNameFromMemberName (Name m) = Inr cn"
    and a': "a = Name m @ ''.'' @ cn @ ''.'' @ Namespace m @ ''.svc''"
    by (auto simp: Addr_def split: sum.splits)
  from clusterName_subset[OF cn] a' show ?thesis by auto
qed

lemma Addr_dash: "CHR ''-'' \<in> set (Name m) \<Longrightarrow> \<exists>a. Addr m = Inr a"
  using clusterName_dash[of "Name m"] by (auto simp: Addr_def)

lemma forEach_ok:
  "list_all (\<lambda>(n, m). \<exists>s. f m = Inr s) ms \<Longrightarrow> \<exists>ss. forEach f ms = Inr ss"
proof (induction ms)
  case Nil
  then show ?case by simp
next
  case (Cons a ms)
  then show ?case by (cases a) auto
qed

lemma ClusterConfig_ok:
  assumes "list_all (\<lambda>(n, m). CHR ''-'' \<in> set (Name m)) ms"
  shows "\<exists>ls. ClusterConfig ms = Inr ls"
proof -
  have "list_all (\<lambda>(n, m). \<exists>s. serverLine ''participant'' m = Inr s) ms"
    using assms Addr_dash by (fastforce simp: list_all_iff serverLine_def)
  from forEach_ok[OF this] show ?thesis by (auto simp: ClusterConfig_def)
qed

lemma ClusterConfig_every_member:
  assumes "ClusterConfig ms = Inr ls"
  shows "length ls = length ms
     \<and> (\<forall>(n, m) \<in> set ms. \<exists>l \<in> set ls. serverLine ''participant'' m = Inr l)
     \<and> mset ls = mset (map (\<lambda>(n, m). projr (serverLine ''participant'' m)) ms)"
proof -
  let ?f = "serverLine ''participant''"
  from assms obtain xs where xs: "forEach ?f ms = Inr xs" "ls = sort xs"
    by (auto simp: ClusterConfig_def split: sum.splits)
  then have ok: "list_all (\<lambda>(n, m). \<not> isl (?f m)) ms"
    and eq: "xs = map (\<lambda>(n, m). projr (?f m)) ms"
    by (simp_all add: forEach_Inr)
  have "\<exists>l \<in> set ls. ?f m = Inr l" if "(n, m) \<in> set ms" for n m
  proof -
    from that ok have "\<not> isl (?f m)" by (auto simp: list_all_iff)
    then have "?f m = Inr (projr (?f m))" by (cases "?f m") auto
    moreover have "projr (?f m) \<in> set ls" using that xs(2) eq by force
    ultimately show ?thesis by metis
  qed
  with xs eq show ?thesis by auto
qed

subsection \<open>Roles\<close>

text \<open>
  C5, as the code has it. A member set records no join state: \<open>ClusterConfig\<close>
  returns whenever every name has a dash, and then emits one line for every member,
  the participant line of that member and nothing else; the role field of each line
  reads participant. The role is chosen in \<open>NewZookeeperPod\<close> alone: the list
  of servers it hands to the pod is the existing cluster followed by the line of the
  pod's own member, whose role field reads participant when the state is
  \<open>seed\<close> or \<open>replacement\<close> and observer for any other state, \<open>new\<close> among
  them. (The role field is read off a line whose address holds no \<open>;\<close>.)
\<close>

theorem member_roles:
  "(list_all (\<lambda>(n, m). CHR ''-'' \<in> set (Name m)) ms \<longrightarrow> (\<exists>ls. ClusterConfig ms = Inr ls))
   \<and> (ClusterConfig ms = Inr ls \<longrightarrow>
        length ls = length ms
        \<and> (\<forall>(n, m) \<in> set ms. \<exists>l \<in> set ls. serverLine ''participant'' m = Inr l)
        \<and> (\<forall>l \<in> set ls. \<exists>(n, m) \<in> set ms. serverLine ''participant'' m = Inr l)
        \<and> (list_all (\<lambda>(n, m). CHR '';'' \<notin> set (Name m) \<and> CHR '';'' \<notin> set (Namespace m)) ms
             \<longrightarrow> list_all (\<lambda>l. roleOfLine l = ''participant'') ls))
   \<and> (Addr m = Inr a \<longrightarrow>
        zooServers m existingCluster state =
          Inr (existingCluster @
            [''server.'' @ Itoa (ID m) @ ''='' @ a @ '':2888:3888:''
               @ (if state = ''seed'' \<or> state = ''replacement'' then ''participant'' else ''observer'')
               @ '';'' @ a @ '':2181'']))
   \<and> (Addr m = Inr a \<and> CHR '';'' \<notin> set a \<longrightarrow>
        (\<exists>own. zooServers m existingCluster state = Inr (existingCluster @ [own])
           \<and> roleOfLine own =
               (if state = ''seed'' \<or> state = ''replacement'' then ''participant''
                else ''observer'')))"
proof -
  have p1: "\<exists>ls. ClusterConfig ms = Inr ls"
    if "list_all (\<lambda>(n, m). CHR ''-'' \<in> set (Name m)) ms"
    using that by (rule ClusterConfig_ok)
  have p2: "length ls = length ms
        \<and> (\<forall>(n, m) \<in> set ms. \<exists>l \<in> set ls. serverLine ''participant'' m = Inr l)
        \<and> (\<forall>l \<in> set ls. \<exists>(n, m) \<in> set ms. serverLine ''participant'' m = Inr l)
        \<and> (list_all (\<lambda>(n, m). CHR '';'' \<notin> set (Name m) \<and> CHR '';'' \<notin> set (Namespace m)) ms
             \<longrightarrow> list_all (\<lambda>l. roleOfLine l = ''participant'') ls)"
    if cc: "ClusterConfig ms = Inr ls"
  proof -
    note every = ClusterConfig_every_member[OF cc]
    have inv: "\<forall>l \<in> set ls. \<exists>(n, m) \<in> set ms. serverLine ''participant'' m = Inr l"
      using ClusterConfig_lines[OF cc] by blast
    have roles: "list_all (\<lambda>l. roleOfLine l = ''participant'') ls"
      if semi: "list_all (\<lambda>(n, m). CHR '';'' \<notin> set (Name m) \<and> CHR '';'' \<notin> set (Namespace m)) ms"
    proof -
      have "roleOfLine l = ''participant''" if "l \<in> set ls" for l
      proof -
        from inv that obtain n m where nm: "(n, m) \<in> set ms"
          "serverLine ''participant'' m = Inr l" by blast
        then obtain a where a: "Addr m = Inr a"
          by (auto simp: serverLine_def split: sum.splits)
        from nm(1) semi have "CHR '';'' \<notin> set (Name m)" "CHR '';'' \<notin> set (Namespace m)"
          by (auto simp: list_all_iff)
        with Addr_parts[OF a] have "CHR '';'' \<notin> set a" by auto
        from serverLine_role[OF a this, of "''participant''"] nm(2) show ?thesis by simp
      qed
      then show ?thesis by (simp add: list_all_iff)
    qed
    from every inv roles show ?thesis by blast
  qed
  have p3: "zooServers m existingCluster state =
          Inr (existingCluster @
            [''server.'' @ Itoa (ID m) @ ''='' @ a @ '':2888:3888:''
               @ (if state = ''seed'' \<or> state = ''replacement'' then ''participant'' else ''observer'')
               @ '';'' @ a @ '':2181''])"
    if "Addr m = Inr a"
    using that by (simp add: zooServers_def serverLine_def)
  have p4: "\<exists>own. zooServers m existingCluster state = Inr (existingCluster @ [own])
           \<and> roleOfLine own =
               (if state = ''seed'' \<or> state = ''replacement'' then ''participant''
                else ''observer'')"
    if h: "Addr m = Inr a \<and> CHR '';'' \<notin> set a"
  proof -
    from h have a: "Addr m = Inr a" and na: "CHR '';'' \<notin> set a" by simp_all
    show ?thesis
    proof (cases "state = ''seed'' \<or> state = ''replacement''")
      case True
      from serverLine_role[OF a na, of "''participant''"] True show ?thesis
        by (auto simp: zooServers_def)
    next
      case False
      from serverLine_role[OF a na, of "''observer''"] False show ?thesis
        by (auto simp: zooServers_def)
    qed
  qed
  from p1 p2 p3 p4 show ?thesis by blast
qed

theorem member_roles_witness:
  "list_all (\<lambda>(n, m). CHR ''-'' \<in> set (Name m)) (exMembers [''c-1'', ''c-2''])
   \<and> list_all (\<lambda>(n, m). CHR '';'' \<notin> set (Name m) \<and> CHR '';'' \<notin> set (Namespace m))
        (exMembers [''c-1'', ''c-2''])
   \<and> ClusterConfig (exMembers [''c-1'', ''c-2'']) = Inr [exLine ''1'' ''c-1'', exLine ''2'' ''c-2'']
   \<and> list_all (\<lambda>l. roleOfLine l = ''participant'') [exLine ''1'' ''c-1'', exLine ''2'' ''c-2'']
   \<and> Addr (exMember ''c-2'') = Inr ''c-2.c.default.svc''
   \<and> CHR '';'' \<notin> set ''c-2.c.default.svc''
   \<and> zooServers (exMember ''c-2'') [exLine ''1'' ''c-1''] ''new''
       = Inr [exLine ''1'' ''c-1'',
              ''server.2=c-2.c.default.svc:2888:3888:observer;c-2.c.default.svc:2181'']
   \<and> roleOfLine ''server.2=c-2.c.default.svc:2888:3888:observer;c-2.c.default.svc:2181''
       = ''observer''
   \<and> zooServers (exMember ''c-2'') [exLine ''1'' ''c-1''] ''replacement''
       = Inr [exLine ''1'' ''c-1'',
              ''server.2=c-2.c.default.svc:2888:3888:participant;c-2.c.default.svc:2181'']"
proof -
  let ?ms = "exMembers [''c-1'', ''c-2'']"
  let ?ls = "[exLine ''1'' ''c-1'', exLine ''2'' ''c-2'']"
  have d: "list_all (\<lambda>(n, m). CHR ''-'' \<in> set (Name m)) ?ms" by code_simp
  have s: "list_all (\<lambda>(n, m). CHR '';'' \<notin> set (Name m) \<and> CHR '';'' \<notin> set (Namespace m)) ?ms"
    by code_simp
  have c: "ClusterConfig ?ms = Inr ?ls" by code_simp
  have a: "Addr (exMember ''c-2'') = Inr ''c-2.c.default.svc''" by code_simp
  have na: "CHR '';'' \<notin> set ''c-2.c.default.svc''" by simp
  have i: "Itoa (ID (exMember ''c-2'')) = ''2''" by code_simp
  note g = member_roles
    [of ?ms ?ls "exMember ''c-2''" "''c-2.c.default.svc''" "[exLine ''1'' ''c-1'']" "''new''"]
  from g c s have p: "list_all (\<lambda>l. roleOfLine l = ''participant'') ?ls" by blast
  from g a i
  have n: "zooServers (exMember ''c-2'') [exLine ''1'' ''c-1''] ''new''
       = Inr [exLine ''1'' ''c-1'',
              ''server.2=c-2.c.default.svc:2888:3888:observer;c-2.c.default.svc:2181'']"
    by simp
  from g a na obtain own where
    "zooServers (exMember ''c-2'') [exLine ''1'' ''c-1''] ''new'' = Inr ([exLine ''1'' ''c-1''] @ [own])"
    "roleOfLine own = (if ''new'' = ''seed'' \<or> ''new'' = ''replacement'' then ''participant''
                      else ''observer'')"
    by blast
  with n have o: "roleOfLine ''server.2=c-2.c.default.svc:2888:3888:observer;c-2.c.default.svc:2181''
       = ''observer''" by simp
  have r: "zooServers (exMember ''c-2'') [exLine ''1'' ''c-1''] ''replacement''
       = Inr [exLine ''1'' ''c-1'',
              ''server.2=c-2.c.default.svc:2888:3888:participant;c-2.c.default.svc:2181'']"
    by code_simp
  from d s c p a na n o r show ?thesis by (intro conjI) assumption+
qed

text \<open>
  C5 as stated fails for \<open>ClusterConfig\<close>: the member \<open>c-2\<close> that
  \<open>addOneMember\<close> adds in state \<open>new\<close> has, in the \<open>ClusterConfig\<close> of the
  members, a line with the role participant; its observer line is not among the
  lines.
\<close>

theorem new_member_is_participant:
  "addOneMember (exEnv []) (exCluster [''c-1''] 2)
     = (None,
        (exCluster [''c-1'', ''c-2''] 2)\<lparr>calls :=
           [SetScalingUpCondition 1 2,
            CallCreatePod [exLine ''1'' ''c-1''] (exMember ''c-2'') ''new'',
            MemberAddEvent ''c-2'']\<rparr>)
   \<and> ClusterConfig (members (snd (addOneMember (exEnv []) (exCluster [''c-1''] 2))))
       = Inr [''server.1=c-1.c.default.svc:2888:3888:participant;c-1.c.default.svc:2181'',
              ''server.2=c-2.c.default.svc:2888:3888:participant;c-2.c.default.svc:2181'']
   \<and> serverLine ''observer'' (exMember ''c-2'')
       = Inr ''server.2=c-2.c.default.svc:2888:3888:observer;c-2.c.default.svc:2181''"
  by code_simp

subsection \<open>Reading the configuration back\<close>



lemma natString_kubeName: "kubeName (natString n)"
proof -
  have "list_all isNameChar ''0123456789''" by code_simp
  then have "\<forall>ch \<in> set ''0123456789''. isNameChar ch" by (simp only: list_all_iff)
  with natString_digits[of n] show ?thesis unfolding kubeName_def list_all_iff by blast
qed

lemma newMember_kubeName:
  assumes "kubeName (clusterName c)"
  shows "kubeName (Name (newMember c)) \<and> CHR ''-'' \<in> set (Name (newMember c))"
proof -
  have "isNameChar CHR ''-''" by (simp add: isNameChar_def)
  then have "kubeName (Itoa i)" for i
    using natString_kubeName by (simp add: Itoa_def kubeName_def)
  with assms \<open>isNameChar CHR ''-''\<close> show ?thesis
    by (simp add: newMember_def kubeName_def)
qed





end
